theory Spec2Isabelle
  imports Main "HOL-Library.Multiset"
begin

section \<open>Thrown values, reports and effectful results\<close>

text \<open>
  A JavaScript \<^verbatim>\<open>throw\<close> can carry any value. The cache code throws instances of
  \<^verbatim>\<open>Error\<close> and of its two subclasses (each with a \<^verbatim>\<open>name\<close> and a
  \<^verbatim>\<open>message\<close>) and, in \<^verbatim>\<open>restoreCache\<close>, a bare string.
  Strings are byte lists here; the keys and paths of the cache are taken to be ASCII, where
  the length in UTF-16 code units that JavaScript counts is the length of the list.
\<close>

datatype thrown = ErrorObj string string | ThrownString string

text \<open>\<^verbatim>\<open>error.name\<close> and \<^verbatim>\<open>error.message\<close>: both are \<^verbatim>\<open>undefined\<close> on a string.\<close>

fun thrown_name :: "thrown \<Rightarrow> string option" where
  "thrown_name (ErrorObj n m) = Some n"
| "thrown_name (ThrownString s) = None"

fun thrown_message :: "thrown \<Rightarrow> string option" where
  "thrown_message (ErrorObj n m) = Some m"
| "thrown_message (ThrownString s) = None"

text \<open>A template literal renders \<^verbatim>\<open>undefined\<close> and \<^verbatim>\<open>null\<close> by their names.\<close>

definition render_undefined :: "string option \<Rightarrow> string" where
  "render_undefined v = (case v of None \<Rightarrow> ''undefined'' | Some s \<Rightarrow> s)"

definition render_null :: "string option \<Rightarrow> string" where
  "render_null v = (case v of None \<Rightarrow> ''null'' | Some s \<Rightarrow> s)"

definition ValidationError :: "string \<Rightarrow> thrown" where
  "ValidationError message = ErrorObj ''ValidationError'' message"

definition ReserveCacheError :: "string \<Rightarrow> thrown" where
  "ReserveCacheError message = ErrorObj ''ReserveCacheError'' message"

definition Error :: "string \<Rightarrow> thrown" where
  "Error message = ErrorObj ''Error'' message"

text \<open>
  What the code reports through \<^verbatim>\<open>core.debug\<close>, \<^verbatim>\<open>core.info\<close>,
  \<^verbatim>\<open>core.warning\<close>, \<^verbatim>\<open>console.error\<close> and \<^verbatim>\<open>console.info\<close>. A message
  that interpolates something other than a string keeps that value as it is. The error
  object that \<^verbatim>\<open>console.error\<close> receives as a second argument is not recorded.
\<close>

datatype msg =
    Str string
  | Json "string list"
  | CacheSizeMsg nat
  | FileSizeMsg nat
  | WithThrown string thrown
  | ReadingFiles "string list"

datatype report =
    Debug msg
  | Info msg
  | Warning msg
  | ConsoleError msg
  | ConsoleInfo msg

text \<open>
  An asynchronous function is modelled by the reports it made, in order, and its outcome:
  \<open>Inl\<close> the value it threw (the promise rejects), \<open>Inr\<close> the value it returned.
\<close>

type_synonym 'a io = "report list \<times> (thrown + 'a)"

definition io_return :: "'a \<Rightarrow> 'a io" where
  "io_return v = ([], Inr v)"

definition io_throw :: "thrown \<Rightarrow> 'a io" where
  "io_throw e = ([], Inl e)"

definition io_log :: "report \<Rightarrow> unit io" where
  "io_log r = ([r], Inr ())"

definition io_lift :: "thrown + 'a \<Rightarrow> 'a io" where
  "io_lift r = ([], r)"

text \<open>A call that returns nothing: \<open>None\<close> when it succeeds, \<open>Some e\<close> when it throws \<open>e\<close>.\<close>

definition io_void :: "thrown option \<Rightarrow> unit io" where
  "io_void r = (case r of None \<Rightarrow> ([], Inr ()) | Some e \<Rightarrow> ([], Inl e))"

definition io_bind :: "'a io \<Rightarrow> ('a \<Rightarrow> 'b io) \<Rightarrow> 'b io" where
  "io_bind m f =
     (case m of
        (l1, Inl e) \<Rightarrow> (l1, Inl e)
      | (l1, Inr v) \<Rightarrow> (case f v of (l2, r) \<Rightarrow> (l1 @ l2, r)))"

text \<open>\<^verbatim>\<open>try { m } catch (error) { h error }\<close>\<close>

definition try_catch :: "'a io \<Rightarrow> (thrown \<Rightarrow> 'a io) \<Rightarrow> 'a io" where
  "try_catch m h =
     (case m of
        (l1, Inl e) \<Rightarrow> (case h e of (l2, r) \<Rightarrow> (l1 @ l2, r))
      | (l1, Inr v) \<Rightarrow> (l1, Inr v))"

text \<open>
  \<^verbatim>\<open>try { m } finally { c }\<close>: \<open>c\<close> runs whatever \<open>m\<close> did; the outcome is that of
  \<open>m\<close> unless \<open>c\<close> throws.
\<close>

definition try_finally :: "'a io \<Rightarrow> unit io \<Rightarrow> 'a io" where
  "try_finally m c =
     (case m of
        (l1, r) \<Rightarrow>
          (case c of
             (l2, Inl e) \<Rightarrow> (l1 @ l2, Inl e)
           | (l2, Inr u) \<Rightarrow> (l1 @ l2, r)))"

section \<open>What the cache code consumes\<close>

text \<open>
  The enumeration \<^verbatim>\<open>CompressionMethod\<close> of
  \<^verbatim>\<open>@actions/cache/lib/internal/constants\<close>, a string enum, and the string each
  member stands for.
\<close>

datatype CompressionMethod = Gzip | ZstdWithoutLong | Zstd

fun CompressionMethod_value :: "CompressionMethod \<Rightarrow> string" where
  "CompressionMethod_value Gzip = ''gzip''"
| "CompressionMethod_value ZstdWithoutLong = ''zstd-without-long''"
| "CompressionMethod_value Zstd = ''zstd''"

text \<open>
  The process environment, the file system and the imported helpers, as the code sees them
  during one call. Each helper is a function of its arguments; a helper that can throw
  returns a sum or an option.
  \<^item> \<open>process_env\<close>: \<^verbatim>\<open>process.env\<close>, \<open>None\<close> for an unset variable;
  \<^item> \<open>platform\<close>: \<^verbatim>\<open>process.platform\<close>; \<open>isDebug\<close>: \<^verbatim>\<open>core.isDebug()\<close>;
  \<^item> \<open>getCompressionMethod\<close>: \<^verbatim>\<open>utils.getCompressionMethod()\<close>, which handles its own
    failures and always answers;
  \<^item> \<open>resolvePaths\<close>, \<open>getArchiveFileSizeInBytes\<close>: \<open>Inl\<close> what they throw;
  \<^item> \<open>mkdir\<close>, \<open>unlinkFile\<close>, \<open>createTar\<close>, \<open>listTar\<close>, \<open>extractTar\<close>: \<open>Some\<close> what
    they throw, \<open>None\<close> on success;
  \<^item> \<open>readdir\<close>: the names of the children of a directory, \<open>None\<close> when the listing fails;
  \<^item> \<open>statSync\<close>: \<^verbatim>\<open>fs.statSync(p).mtimeMs\<close>, \<open>None\<close> when \<^verbatim>\<open>statSync\<close> throws;
  \<^item> \<open>path_join\<close>: \<^verbatim>\<open>path.join\<close>; \<open>sha256_hex\<close>: the hex SHA-256 digest of a string.
\<close>

record env =
  process_env :: "string \<Rightarrow> string option"
  platform :: string
  isDebug :: bool
  getCompressionMethod :: CompressionMethod
  getCacheFileName :: "CompressionMethod \<Rightarrow> string"
  resolvePaths :: "string list \<Rightarrow> thrown + string list"
  mkdir :: "string \<Rightarrow> thrown option"
  unlinkFile :: "string \<Rightarrow> thrown option"
  createTar :: "string \<Rightarrow> string list \<Rightarrow> CompressionMethod \<Rightarrow> thrown option"
  listTar :: "string \<Rightarrow> CompressionMethod \<Rightarrow> thrown option"
  extractTar :: "string \<Rightarrow> CompressionMethod \<Rightarrow> thrown option"
  getArchiveFileSizeInBytes :: "string \<Rightarrow> thrown + nat"
  readdir :: "string \<Rightarrow> string list option"
  statSync :: "string \<Rightarrow> int option"
  path_join :: "string list \<Rightarrow> string"
  sha256_hex :: "string \<Rightarrow> string"

text \<open>\<^verbatim>\<open>Array.prototype.join\<close> on an array of strings.\<close>

fun array_join :: "string \<Rightarrow> string list \<Rightarrow> string" where
  "array_join sep [] = []"
| "array_join sep [x] = x"
| "array_join sep (x # y # ys) = x @ sep @ array_join sep (y # ys)"

text \<open>\<^verbatim>\<open>process.env.NAME || fallback\<close>: an unset and an empty variable give the fallback.\<close>

definition env_or :: "env \<Rightarrow> string \<Rightarrow> string \<Rightarrow> string" where
  "env_or E name fallback =
     (case process_env E name of
        None \<Rightarrow> fallback
      | Some v \<Rightarrow> if v = [] then fallback else v)"

section \<open>Validation\<close>

definition checkPaths :: "string list \<Rightarrow> thrown + unit" where
  "checkPaths paths =
     (if length paths = 0
      then Inl (ValidationError
             ''Path Validation Error: At least one directory or file path is required'')
      else Inr ())"

text \<open>The regular expression \<^verbatim>\<open>/^[^,]*$/\<close> matches exactly the strings without a comma.\<close>

definition checkKey :: "string \<Rightarrow> thrown + unit" where
  "checkKey key =
     (if length key > 512
      then Inl (ValidationError
             (''Key Validation Error: '' @ key @ '' cannot be larger than 512 characters.''))
      else if \<not> list_all (\<lambda>c. c \<noteq> CHR '','') key
      then Inl (ValidationError
             (''Key Validation Error: '' @ key @ '' cannot contain commas.''))
      else Inr ())"

text \<open>\<^verbatim>\<open>for (const key of keys) { checkKey(key); }\<close>\<close>

fun checkKey_each :: "string list \<Rightarrow> thrown + unit" where
  "checkKey_each [] = Inr ()"
| "checkKey_each (key # keys) =
     (case checkKey key of Inl e \<Rightarrow> Inl e | Inr u \<Rightarrow> checkKey_each keys)"

section \<open>Version fingerprint and prefix\<close>

definition versionSalt :: string where
  "versionSalt = ''1.0''"

text \<open>The array \<^verbatim>\<open>components\<close> of \<^verbatim>\<open>getCacheVersion\<close> when it is joined.\<close>

definition components :: "env \<Rightarrow> string list \<Rightarrow> CompressionMethod option \<Rightarrow> bool \<Rightarrow> string list" where
  "components E paths compressionMethod enableCrossOsArchive =
     paths
     @ (case compressionMethod of None \<Rightarrow> [] | Some c \<Rightarrow> [CompressionMethod_value c])
     @ (if platform E = ''win32'' \<and> \<not> enableCrossOsArchive then [''windows-only''] else [])
     @ [versionSalt]"

definition getCacheVersion :: "env \<Rightarrow> string list \<Rightarrow> CompressionMethod option \<Rightarrow> bool \<Rightarrow> string" where
  "getCacheVersion E paths compressionMethod enableCrossOsArchive =
     sha256_hex E (array_join ''|'' (components E paths compressionMethod enableCrossOsArchive))"

text \<open>An unset \<^verbatim>\<open>GITHUB_REPOSITORY\<close> is \<^verbatim>\<open>undefined\<close>, which \<^verbatim>\<open>join\<close> renders empty.\<close>

definition getPrefix :: "env \<Rightarrow> string list \<Rightarrow> CompressionMethod \<Rightarrow> bool \<Rightarrow> string" where
  "getPrefix E paths compressionMethod enableCrossOsArchive =
     (let repository = process_env E ''GITHUB_REPOSITORY'';
          version = getCacheVersion E paths (Some compressionMethod) enableCrossOsArchive
      in array_join ''/''
           [''cache'', (case repository of None \<Rightarrow> [] | Some r \<Rightarrow> r), version])"

subsection \<open>The same function on a store of arrays\<close>

text \<open>
  Arrays are objects: \<^verbatim>\<open>getCacheVersion\<close> receives a reference to the caller's array, and
  \<^verbatim>\<open>push\<close> updates an array in place. To say what the call does to the caller's array, the
  function is also given over a store that maps references to array contents; \<open>next_ref\<close>
  is the first reference not yet in use. A reference that is not in the store reads as the
  empty array.
\<close>

record store =
  cells :: "nat \<Rightarrow> string list option"
  next_ref :: nat

definition array_get :: "store \<Rightarrow> nat \<Rightarrow> string list" where
  "array_get s r = (case cells s r of None \<Rightarrow> [] | Some xs \<Rightarrow> xs)"

text \<open>\<^verbatim>\<open>a.slice()\<close>: a new array with the elements of \<open>a\<close>.\<close>

definition array_slice :: "store \<Rightarrow> nat \<Rightarrow> nat \<times> store" where
  "array_slice s r =
     (next_ref s,
      s\<lparr>cells := (cells s)(next_ref s := Some (array_get s r)), next_ref := Suc (next_ref s)\<rparr>)"

text \<open>\<^verbatim>\<open>a.push(v)\<close>: \<open>v\<close> is appended to the array that \<open>a\<close> refers to.\<close>

definition array_push :: "store \<Rightarrow> nat \<Rightarrow> string \<Rightarrow> store" where
  "array_push s r v = s\<lparr>cells := (cells s)(r := Some (array_get s r @ [v]))\<rparr>"

definition getCacheVersion_store ::
  "env \<Rightarrow> store \<Rightarrow> nat \<Rightarrow> CompressionMethod option \<Rightarrow> bool \<Rightarrow> string \<times> store" where
  "getCacheVersion_store E s0 paths compressionMethod enableCrossOsArchive =
     (case array_slice s0 paths of
        (components_ref, s1) \<Rightarrow>
          (let s2 = (case compressionMethod of
                       None \<Rightarrow> s1
                     | Some c \<Rightarrow> array_push s1 components_ref (CompressionMethod_value c));
               s3 = (if platform E = ''win32'' \<and> \<not> enableCrossOsArchive
                     then array_push s2 components_ref ''windows-only''
                     else s2);
               s4 = array_push s3 components_ref versionSalt
           in (sha256_hex E (array_join ''|'' (array_get s4 components_ref)), s4)))"

section \<open>Looking up a stored entry\<close>

text \<open>The two variants read the backend root from different variables.\<close>

definition cacheDir_index :: "env \<Rightarrow> string" where
  "cacheDir_index E = env_or E ''INF_RUNNER_CACHE_DIR'' ''/var/local/inf_runner_cache''"

definition cacheDir_part000 :: "env \<Rightarrow> string" where
  "cacheDir_part000 E = env_or E ''RUST_CACHE_DIR'' ''/runner/rust_cache''"

record ArtifactCacheEntry =
  cacheKey :: string
  archiveLocation :: string

text \<open>The directory \<^verbatim>\<open>restoreDir\<close> that the loop computes for a key, in each variant.\<close>

definition restoreDir_index ::
  "env \<Rightarrow> string list \<Rightarrow> CompressionMethod \<Rightarrow> bool \<Rightarrow> string \<Rightarrow> string" where
  "restoreDir_index E paths compressionMethod enableCrossOsArchive restoreKey =
     (let prefix = getPrefix E paths compressionMethod enableCrossOsArchive
      in array_join ''/'' [cacheDir_index E, prefix, restoreKey])"

definition restoreDir_part000 ::
  "env \<Rightarrow> string list \<Rightarrow> CompressionMethod \<Rightarrow> bool \<Rightarrow> string \<Rightarrow> string" where
  "restoreDir_part000 E paths compressionMethod enableCrossOsArchive restoreKey =
     (let prefix = getPrefix E paths compressionMethod enableCrossOsArchive
      in array_join ''/'' [cacheDir_part000 E, prefix, restoreKey])"

text \<open>
  \<^verbatim>\<open>files.sort((a, b) => mtimeMs(a) - mtimeMs(b))\<close> in \<^verbatim>\<open>getCacheEntry\<close>. The
  comparator calls \<^verbatim>\<open>fs.statSync\<close> on both of its arguments. An array of fewer than two
  elements is returned without a comparison; with two or more, every element is compared at
  least once, so the sort throws as soon as one child cannot be read. Otherwise the result
  is in ascending order of modification time, and elements that compare equal keep their
  order (the sort is stable since ECMAScript 2019). \<open>None\<close> stands for a throw.
  Modification times are integers here; the code has floating-point milliseconds, of which
  the comparator uses the order only.
  The code reads element 0 of the result only when the listing is not empty.
\<close>

definition mtimeMs :: "env \<Rightarrow> string \<Rightarrow> string \<Rightarrow> int" where
  "mtimeMs E restoreDir a =
     (case statSync E (array_join ''/'' [restoreDir, a]) of None \<Rightarrow> 0 | Some t \<Rightarrow> t)"

definition sortedKeys :: "env \<Rightarrow> string \<Rightarrow> string list \<Rightarrow> string list option" where
  "sortedKeys E restoreDir files =
     (if length files < 2 then Some files
      else if list_all (\<lambda>a. statSync E (array_join ''/'' [restoreDir, a]) \<noteq> None) files
      then Some (sort_key (mtimeMs E restoreDir) files)
      else None)"

text \<open>\<^verbatim>\<open>src/fsCache/index.ts\<close>: the loop of \<^verbatim>\<open>getCacheEntry\<close> over the keys.\<close>

fun getCacheEntry ::
  "env \<Rightarrow> string list \<Rightarrow> string list \<Rightarrow> CompressionMethod \<Rightarrow> bool \<Rightarrow> ArtifactCacheEntry option io" where
  "getCacheEntry E [] paths compressionMethod enableCrossOsArchive = io_return None"
| "getCacheEntry E (restoreKey # keys) paths compressionMethod enableCrossOsArchive =
     (let restoreDir = restoreDir_index E paths compressionMethod enableCrossOsArchive restoreKey;
          catch = io_log (ConsoleError
                    (Str (''Error listing objects with prefix '' @ restoreKey)))
      in case readdir E restoreDir of
           None \<Rightarrow>
             io_bind catch
               (\<lambda>u. getCacheEntry E keys paths compressionMethod enableCrossOsArchive)
         | Some files \<Rightarrow>
             if length files > 0
             then (case sortedKeys E restoreDir files of
                     None \<Rightarrow>
                       io_bind catch
                         (\<lambda>u. getCacheEntry E keys paths compressionMethod enableCrossOsArchive)
                   | Some sorted_files \<Rightarrow>
                       io_return
                         (Some \<lparr>cacheKey = hd sorted_files, archiveLocation = restoreDir\<rparr>))
             else getCacheEntry E keys paths compressionMethod enableCrossOsArchive)"

text \<open>
  The second variant: \<^verbatim>\<open>getRestoreKey\<close>. The sort is commented out there, and the key
  itself is returned. The variable returned after the loop is the outer
  \<^verbatim>\<open>restoreKey\<close>, which is \<^verbatim>\<open>null\<close>.
\<close>

fun getRestoreKey ::
  "env \<Rightarrow> string list \<Rightarrow> string list \<Rightarrow> CompressionMethod \<Rightarrow> bool \<Rightarrow> string option io" where
  "getRestoreKey E [] paths compressionMethod enableCrossOsArchive = io_return None"
| "getRestoreKey E (restoreKey # keys) paths compressionMethod enableCrossOsArchive =
     (let restoreDir = restoreDir_part000 E paths compressionMethod enableCrossOsArchive restoreKey
      in case readdir E restoreDir of
           None \<Rightarrow>
             io_bind (io_log (ConsoleInfo (Str (''Cache not found with prefix '' @ restoreKey))))
               (\<lambda>u. getRestoreKey E keys paths compressionMethod enableCrossOsArchive)
         | Some files \<Rightarrow>
             io_bind (io_log (ConsoleInfo (ReadingFiles files)))
               (\<lambda>u. if length files > 0
                    then io_bind
                           (io_log (ConsoleInfo (Str (''Cache found with prefix '' @ restoreKey))))
                           (\<lambda>u. io_return (Some restoreKey))
                    else getRestoreKey E keys paths compressionMethod enableCrossOsArchive))"

section \<open>Restoring\<close>

text \<open>
  The \<^verbatim>\<open>catch\<close> clause of \<^verbatim>\<open>restoreCache\<close>, the same in both variants: a thrown value
  whose \<^verbatim>\<open>name\<close> is that of \<^verbatim>\<open>ValidationError\<close> is thrown again, anything else
  becomes a warning, and the function goes on to return \<^verbatim>\<open>undefined\<close>.
\<close>

definition restoreCache_catch :: "thrown \<Rightarrow> string option io" where
  "restoreCache_catch error =
     (if thrown_name error = Some ''ValidationError''
      then io_throw error
      else io_bind
             (io_log (Warning
                (Str (''Failed to restore: '' @ render_undefined (thrown_message error)))))
             (\<lambda>u. io_return None))"

text \<open>The \<^verbatim>\<open>try\<close> block of \<^verbatim>\<open>restoreCache\<close> in \<^verbatim>\<open>src/fsCache/index.ts\<close>.\<close>

definition restoreCache_try_index ::
  "env \<Rightarrow> string list \<Rightarrow> string list \<Rightarrow> CompressionMethod \<Rightarrow> bool \<Rightarrow> string option io" where
  "restoreCache_try_index E keys paths compressionMethod enableCrossOsArchive =
     io_bind (getCacheEntry E keys paths compressionMethod enableCrossOsArchive)
       (\<lambda>cacheEntry.
          case cacheEntry of
            None \<Rightarrow> io_throw (ThrownString ''cache entry not found'')
          | Some entry \<Rightarrow>
              (let archivePath = array_join ''/'' [archiveLocation entry, cacheKey entry]
               in io_bind (io_log (Debug (Str (''Archive Path: '' @ archivePath)))) (\<lambda>u.
                  io_bind (if isDebug E
                           then io_void (listTar E archivePath compressionMethod)
                           else io_return ()) (\<lambda>u.
                  io_bind (io_lift (getArchiveFileSizeInBytes E archivePath)) (\<lambda>archiveFileSize.
                  io_bind (io_log (Info (CacheSizeMsg archiveFileSize))) (\<lambda>u.
                  io_bind (io_void (extractTar E archivePath compressionMethod)) (\<lambda>u.
                  io_bind (io_log (Info (Str ''Cache restored successfully''))) (\<lambda>u.
                  io_return (Some (cacheKey entry))))))))))"

text \<open>The \<^verbatim>\<open>try\<close> block of \<^verbatim>\<open>restoreCache\<close> in the second variant.\<close>

definition restoreCache_try_part000 ::
  "env \<Rightarrow> string list \<Rightarrow> string list \<Rightarrow> CompressionMethod \<Rightarrow> bool \<Rightarrow> string option io" where
  "restoreCache_try_part000 E keys paths compressionMethod enableCrossOsArchive =
     io_bind (getRestoreKey E keys paths compressionMethod enableCrossOsArchive)
       (\<lambda>found.
          io_bind (io_log (Debug (Str (''Cache entry: '' @ render_null found)))) (\<lambda>u.
          case found of
            None \<Rightarrow> io_throw (ThrownString ''cache entry not found'')
          | Some restoreKey \<Rightarrow>
              (let archiveFolder =
                     restoreDir_part000 E paths compressionMethod enableCrossOsArchive restoreKey;
                   archivePath = path_join E [archiveFolder, getCacheFileName E compressionMethod]
               in io_bind (io_log (Debug (Str (''Archive Path: '' @ archivePath)))) (\<lambda>u.
                  io_bind (if isDebug E
                           then io_void (listTar E archivePath compressionMethod)
                           else io_return ()) (\<lambda>u.
                  io_bind (io_lift (getArchiveFileSizeInBytes E archivePath)) (\<lambda>archiveFileSize.
                  io_bind (io_log (Info (CacheSizeMsg archiveFileSize))) (\<lambda>u.
                  io_bind (io_void (extractTar E archivePath compressionMethod)) (\<lambda>u.
                  io_bind (io_log (Info (Str ''Cache restored successfully''))) (\<lambda>u.
                  io_return (Some restoreKey))))))))))"

text \<open>
  What \<^verbatim>\<open>restoreCache\<close> does before its \<^verbatim>\<open>try\<close> block, the same in both variants; an
  absent \<^verbatim>\<open>restoreKeys\<close> is \<open>None\<close>. The result is the combined key list.
\<close>

definition combined_keys :: "string \<Rightarrow> string list option \<Rightarrow> string list" where
  "combined_keys primaryKey restoreKeys =
     primaryKey # (case restoreKeys of None \<Rightarrow> [] | Some ks \<Rightarrow> ks)"

definition restoreCache_validate :: "string list \<Rightarrow> string \<Rightarrow> string list option \<Rightarrow> string list io" where
  "restoreCache_validate paths primaryKey restoreKeys =
     io_bind (io_lift (checkPaths paths)) (\<lambda>u.
       (let keys = combined_keys primaryKey restoreKeys
        in io_bind (io_log (Debug (Str ''Resolved Keys:''))) (\<lambda>u.
           io_bind (io_log (Debug (Json keys))) (\<lambda>u.
           io_bind (if length keys > 10
                    then io_throw (ValidationError
                           ''Key Validation Error: Keys are limited to a maximum of 10.'')
                    else io_return ()) (\<lambda>u.
           io_bind (io_lift (checkKey_each keys)) (\<lambda>u.
           io_return keys))))))"

definition restoreCache_index ::
  "env \<Rightarrow> string list \<Rightarrow> string \<Rightarrow> string list option \<Rightarrow> bool \<Rightarrow> string option io" where
  "restoreCache_index E paths primaryKey restoreKeys enableCrossOsArchive =
     io_bind (restoreCache_validate paths primaryKey restoreKeys) (\<lambda>keys.
       (let compressionMethod = getCompressionMethod E
        in try_catch
             (restoreCache_try_index E keys paths compressionMethod enableCrossOsArchive)
             restoreCache_catch))"

definition restoreCache_part000 ::
  "env \<Rightarrow> string list \<Rightarrow> string \<Rightarrow> string list option \<Rightarrow> bool \<Rightarrow> string option io" where
  "restoreCache_part000 E paths primaryKey restoreKeys enableCrossOsArchive =
     io_bind (restoreCache_validate paths primaryKey restoreKeys) (\<lambda>keys.
       (let compressionMethod = getCompressionMethod E
        in try_catch
             (restoreCache_try_part000 E keys paths compressionMethod enableCrossOsArchive)
             restoreCache_catch))"

section \<open>Saving\<close>

text \<open>
  The \<^verbatim>\<open>try\<close> block of \<^verbatim>\<open>saveCache\<close>, the same in both variants. Its value is the new
  \<^verbatim>\<open>cacheId\<close>, 1.
\<close>

definition saveCache_try ::
  "env \<Rightarrow> string \<Rightarrow> string \<Rightarrow> string list \<Rightarrow> CompressionMethod \<Rightarrow> int io" where
  "saveCache_try E archiveFolder archivePath cachePaths compressionMethod =
     io_bind (io_void (createTar E archiveFolder cachePaths compressionMethod)) (\<lambda>u.
     io_bind (if isDebug E
              then io_void (listTar E archivePath compressionMethod)
              else io_return ()) (\<lambda>u.
     io_bind (io_lift (getArchiveFileSizeInBytes E archivePath)) (\<lambda>archiveFileSize.
     io_bind (io_log (Debug (FileSizeMsg archiveFileSize))) (\<lambda>u.
     io_return 1))))"

text \<open>
  The \<^verbatim>\<open>catch\<close> clause of \<^verbatim>\<open>saveCache\<close>, the same in both variants. When it does not
  throw again, \<^verbatim>\<open>cacheId\<close> keeps its initial value \<open>-1\<close>.
\<close>

definition saveCache_catch :: "thrown \<Rightarrow> int io" where
  "saveCache_catch error =
     (if thrown_name error = Some ''ValidationError''
      then io_throw error
      else if thrown_name error = Some ''ReserveCacheError''
      then io_bind
             (io_log (Info (Str (''Failed to save: '' @ render_undefined (thrown_message error)))))
             (\<lambda>u. io_return (- 1))
      else io_bind
             (io_log (Warning (Str (''Failed to save: '' @ render_undefined (thrown_message error)))))
             (\<lambda>u. io_return (- 1)))"

text \<open>What \<^verbatim>\<open>saveCache\<close> throws when the patterns resolve to no path.\<close>

definition nothing_to_save :: thrown where
  "nothing_to_save =
     Error ''Path Validation Error: Path(s) specified in the action for caching do(es) not exist, hence no cache is being saved.''"

text \<open>What \<^verbatim>\<open>saveCache\<close> does up to the check of the resolved paths, the same in both variants.\<close>

definition saveCache_resolve :: "env \<Rightarrow> string list \<Rightarrow> string \<Rightarrow> string list io" where
  "saveCache_resolve E paths key =
     io_bind (io_lift (checkPaths paths)) (\<lambda>u.
     io_bind (io_lift (checkKey key)) (\<lambda>u.
     io_bind (io_lift (resolvePaths E paths)) (\<lambda>cachePaths.
     io_bind (io_log (Debug (Str ''Cache Paths:''))) (\<lambda>u.
     io_bind (io_log (Debug (Json cachePaths))) (\<lambda>u.
     io_bind (if length cachePaths = 0
              then io_throw nothing_to_save
              else io_return ()) (\<lambda>u.
     io_return cachePaths))))))"

text \<open>The folder and the file that \<^verbatim>\<open>saveCache\<close> writes to, built with \<^verbatim>\<open>path.join\<close>.\<close>

definition archiveFolder_index :: "env \<Rightarrow> string list \<Rightarrow> string \<Rightarrow> bool \<Rightarrow> string" where
  "archiveFolder_index E paths key enableCrossOsArchive =
     (let prefix = getPrefix E paths (getCompressionMethod E) enableCrossOsArchive
      in path_join E [cacheDir_index E, prefix, key])"

definition archiveFolder_part000 :: "env \<Rightarrow> string list \<Rightarrow> string \<Rightarrow> bool \<Rightarrow> string" where
  "archiveFolder_part000 E paths key enableCrossOsArchive =
     (let prefix = getPrefix E paths (getCompressionMethod E) enableCrossOsArchive
      in path_join E [cacheDir_part000 E, prefix, key])"

definition archivePath_in :: "env \<Rightarrow> string \<Rightarrow> string" where
  "archivePath_in E archiveFolder =
     path_join E [archiveFolder, getCacheFileName E (getCompressionMethod E)]"

text \<open>
  \<^verbatim>\<open>src/fsCache/index.ts\<close>: the backend root is created, and after the \<^verbatim>\<open>try\<close> block the
  archive itself is unlinked.
\<close>

definition saveCache_index :: "env \<Rightarrow> string list \<Rightarrow> string \<Rightarrow> bool \<Rightarrow> int io" where
  "saveCache_index E paths key enableCrossOsArchive =
     io_bind (saveCache_resolve E paths key) (\<lambda>cachePaths.
       (let compressionMethod = getCompressionMethod E
        in io_bind (io_void (mkdir E (cacheDir_index E))) (\<lambda>u.
             (let archiveFolder = archiveFolder_index E paths key enableCrossOsArchive;
                  archivePath = archivePath_in E archiveFolder
              in io_bind (io_log (Debug (Str (''Archive archiveFolder: '' @ archiveFolder)))) (\<lambda>u.
                 io_bind (io_log (Debug (Str (''Archive Path: '' @ archivePath)))) (\<lambda>u.
                 try_finally
                   (try_catch
                      (saveCache_try E archiveFolder archivePath cachePaths compressionMethod)
                      saveCache_catch)
                   (case unlinkFile E archivePath of
                      None \<Rightarrow> io_return ()
                    | Some error \<Rightarrow>
                        io_log (Debug (WithThrown ''Failed to delete archive: '' error)))))))))"

text \<open>
  The second variant: the archive folder is created, an archive already there is unlinked
  first (a failure of that is ignored), and after the \<^verbatim>\<open>try\<close> block the manifest is
  unlinked.
\<close>

definition saveCache_part000 :: "env \<Rightarrow> string list \<Rightarrow> string \<Rightarrow> bool \<Rightarrow> int io" where
  "saveCache_part000 E paths key enableCrossOsArchive =
     io_bind (saveCache_resolve E paths key) (\<lambda>cachePaths.
       (let compressionMethod = getCompressionMethod E;
            archiveFolder = archiveFolder_part000 E paths key enableCrossOsArchive
        in io_bind (io_void (mkdir E archiveFolder)) (\<lambda>u.
             (let archivePath = archivePath_in E archiveFolder
              in io_bind (io_log (Debug (Str (''Archive archiveFolder: '' @ archiveFolder)))) (\<lambda>u.
                 io_bind (io_log (Debug (Str (''Archive Path: '' @ archivePath)))) (\<lambda>u.
                 io_bind (case unlinkFile E archivePath of
                            None \<Rightarrow> io_log (Debug (Str ''Deleted existing tar''))
                          | Some error \<Rightarrow> io_return ()) (\<lambda>u.
                 try_finally
                   (try_catch
                      (saveCache_try E archiveFolder archivePath cachePaths compressionMethod)
                      saveCache_catch)
                   (case unlinkFile E (path_join E [archiveFolder, ''manifest.txt'']) of
                      None \<Rightarrow> io_return ()
                    | Some error \<Rightarrow>
                        io_log (Debug (WithThrown ''Failed to delete manifest: '' error))))))))))"

section \<open>Notions used in the statements\<close>

text \<open>The call rejects with a value whose \<^verbatim>\<open>name\<close> is \<^verbatim>\<open>ValidationError\<close>.\<close>

definition raises_ValidationError :: "'a io \<Rightarrow> bool" where
  "raises_ValidationError m =
     (case snd m of Inl e \<Rightarrow> thrown_name e = Some ''ValidationError'' | Inr v \<Rightarrow> False)"

text \<open>The listing of a directory succeeds and has at least one child.\<close>

definition lists_children :: "env \<Rightarrow> string \<Rightarrow> bool" where
  "lists_children E dir = (case readdir E dir of None \<Rightarrow> False | Some files \<Rightarrow> length files > 0)"

text \<open>The children of a directory, none when the listing fails.\<close>

definition children :: "env \<Rightarrow> string \<Rightarrow> string list" where
  "children E dir = (case readdir E dir of None \<Rightarrow> [] | Some files \<Rightarrow> files)"

text \<open>
  Every helper that creates, lists, unpacks or measures succeeds, whatever it is called
  with.
\<close>

definition helpers_succeed :: "env \<Rightarrow> bool" where
  "helpers_succeed E \<longleftrightarrow>
     (\<forall>d. mkdir E d = None)
     \<and> (\<forall>folder ps c. createTar E folder ps c = None)
     \<and> (\<forall>p c. listTar E p c = None)
     \<and> (\<forall>p c. extractTar E p c = None)
     \<and> (\<forall>p. \<exists>n. getArchiveFileSizeInBytes E p = Inr n)"

text \<open>
  The modification times of the children of a directory can be read as far as the sort of
  \<^verbatim>\<open>getCacheEntry\<close> needs them: there are fewer than two children, or
  \<^verbatim>\<open>statSync\<close> answers for each.
\<close>

definition times_readable :: "env \<Rightarrow> string \<Rightarrow> bool" where
  "times_readable E dir \<longleftrightarrow>
     length (children E dir) < 2
     \<or> list_all (\<lambda>a. statSync E (array_join ''/'' [dir, a]) \<noteq> None) (children E dir)"

text \<open>A key is a hit for the loop of each variant.\<close>

definition hit_index :: "env \<Rightarrow> string list \<Rightarrow> CompressionMethod \<Rightarrow> bool \<Rightarrow> string \<Rightarrow> bool" where
  "hit_index E paths c x key \<longleftrightarrow>
     lists_children E (restoreDir_index E paths c x key)
     \<and> times_readable E (restoreDir_index E paths c x key)"

definition hit_part000 :: "env \<Rightarrow> string list \<Rightarrow> CompressionMethod \<Rightarrow> bool \<Rightarrow> string \<Rightarrow> bool" where
  "hit_part000 E paths c x key \<longleftrightarrow> lists_children E (restoreDir_part000 E paths c x key)"

subsection \<open>Concrete environments\<close>

text \<open>
  A Linux runner on which every helper succeeds and no directory can be listed: the backend
  root does not exist. The identity stands in for the digest (an injective function, as the
  statements about the fingerprint assume of SHA-256), and joining with a slash stands in
  for \<^verbatim>\<open>path.join\<close>.
\<close>

definition quiet_env :: env where
  "quiet_env =
     \<lparr>process_env = (\<lambda>name. if name = ''GITHUB_REPOSITORY'' then Some ''o/r'' else None),
      platform = ''linux'',
      isDebug = False,
      getCompressionMethod = Gzip,
      getCacheFileName = (\<lambda>c. case c of Gzip \<Rightarrow> ''cache.tgz'' | _ \<Rightarrow> ''cache.tzst''),
      resolvePaths = (\<lambda>ps. Inr ps),
      mkdir = (\<lambda>d. None),
      unlinkFile = (\<lambda>p. None),
      createTar = (\<lambda>folder ps c. None),
      listTar = (\<lambda>p c. None),
      extractTar = (\<lambda>p c. None),
      getArchiveFileSizeInBytes = (\<lambda>p. Inr 2048),
      readdir = (\<lambda>d. None),
      statSync = (\<lambda>p. None),
      path_join = array_join ''/'',
      sha256_hex = (\<lambda>s. s)\<rparr>"

text \<open>The same runner, on which the patterns resolve to no path.\<close>

definition nothing_resolves_env :: env where
  "nothing_resolves_env = quiet_env\<lparr>resolvePaths := (\<lambda>ps. Inr [])\<rparr>"

text \<open>The same runner, on which the archive codec fails to create an archive.\<close>

definition tar_fails_env :: env where
  "tar_fails_env =
     quiet_env\<lparr>createTar := (\<lambda>folder ps c. Some (Error ''tar exited with code 2''))\<rparr>"

text \<open>The same runner, on which creating a directory is refused.\<close>

definition mkdir_refused_env :: env where
  "mkdir_refused_env =
     quiet_env\<lparr>mkdir := (\<lambda>d. Some (Error ''EACCES: permission denied, mkdir''))\<rparr>"

text \<open>
  The same runner with an entry stored under the key \<^verbatim>\<open>k1\<close> for the paths
  \<^verbatim>\<open>[target]\<close>, below the backend root of either variant: the folder of the key holds
  the archive.
\<close>

definition one_archive_env :: env where
  "one_archive_env =
     quiet_env\<lparr>readdir :=
       (\<lambda>d. if d = ''/var/local/inf_runner_cache/cache/o/r/target|gzip|1.0/k1''
                 \<or> d = ''/runner/rust_cache/cache/o/r/target|gzip|1.0/k1''
             then Some [''cache.tgz'']
             else None)\<rparr>"

text \<open>
  The folder of the key \<^verbatim>\<open>k1\<close> holds two children, \<^verbatim>\<open>old\<close> modified at time 1000
  and \<^verbatim>\<open>new\<close> modified at time 2000.
\<close>

definition two_children_env :: env where
  "two_children_env =
     quiet_env\<lparr>readdir :=
       (\<lambda>d. if d = ''/var/local/inf_runner_cache/cache/o/r/target|gzip|1.0/k1''
                 \<or> d = ''/runner/rust_cache/cache/o/r/target|gzip|1.0/k1''
             then Some [''old'', ''new'']
             else None),
       statSync :=
       (\<lambda>p. if p = ''/var/local/inf_runner_cache/cache/o/r/target|gzip|1.0/k1/old''
                 \<or> p = ''/runner/rust_cache/cache/o/r/target|gzip|1.0/k1/old''
             then Some 1000
             else if p = ''/var/local/inf_runner_cache/cache/o/r/target|gzip|1.0/k1/new''
                 \<or> p = ''/runner/rust_cache/cache/o/r/target|gzip|1.0/k1/new''
             then Some 2000
             else None)\<rparr>"

text \<open>
  The folder of \<^verbatim>\<open>k1\<close> can be listed and holds two children, but they cannot be read
  (\<^verbatim>\<open>statSync\<close> throws, as in a directory without search permission); the folder of
  \<^verbatim>\<open>k2\<close> holds one child.
\<close>

definition unreadable_children_env :: env where
  "unreadable_children_env =
     quiet_env\<lparr>readdir :=
       (\<lambda>d. if d = ''/var/local/inf_runner_cache/cache/o/r/target|gzip|1.0/k1''
             then Some [''a'', ''b'']
             else if d = ''/var/local/inf_runner_cache/cache/o/r/target|gzip|1.0/k2''
             then Some [''c'']
             else None)\<rparr>"

text \<open>A store in which reference 0 is the caller's array \<^verbatim>\<open>[target]\<close>.\<close>

definition one_array_store :: store where
  "one_array_store = \<lparr>cells = (\<lambda>r. if r = 0 then Some [''target''] else None), next_ref = 1\<rparr>"

section \<open>Outcomes and reports of composed calls\<close>

lemma snd_io_bind: "snd (io_bind m f) = (case snd m of Inl e \<Rightarrow> Inl e | Inr v \<Rightarrow> snd (f v))"
  by (cases m) (auto simp: io_bind_def split: sum.splits prod.splits)

lemma fst_io_bind:
  "fst (io_bind m f) = (case snd m of Inl e \<Rightarrow> fst m | Inr v \<Rightarrow> fst m @ fst (f v))"
  by (cases m) (auto simp: io_bind_def split: sum.splits prod.splits)

lemma snd_try_catch: "snd (try_catch m h) = (case snd m of Inl e \<Rightarrow> snd (h e) | Inr v \<Rightarrow> Inr v)"
  by (cases m) (auto simp: try_catch_def split: sum.splits prod.splits)

lemma fst_try_catch:
  "fst (try_catch m h) = (case snd m of Inl e \<Rightarrow> fst m @ fst (h e) | Inr v \<Rightarrow> fst m)"
  by (cases m) (auto simp: try_catch_def split: sum.splits prod.splits)

lemma snd_try_finally:
  "snd (try_finally m c) = (case snd c of Inl e \<Rightarrow> Inl e | Inr u \<Rightarrow> snd m)"
  by (cases m; cases c) (auto simp: try_finally_def split: sum.splits prod.splits)

lemma fst_try_finally: "fst (try_finally m c) = fst m @ fst c"
  by (cases m; cases c) (auto simp: try_finally_def split: sum.splits prod.splits)

lemmas io_simps = io_return_def io_throw_def io_log_def io_lift_def io_void_def

lemma raises_ValidationError_bind:
  "raises_ValidationError m \<Longrightarrow> raises_ValidationError (io_bind m f)"
  by (auto simp: raises_ValidationError_def snd_io_bind split: sum.splits)

section \<open>Validation of keys and paths\<close>

lemma checkKey_isl: "isl (checkKey key) \<longleftrightarrow> (length key > 512 \<or> CHR '','' \<in> set key)"
  by (auto simp: checkKey_def list_all_iff)

lemma checkKey_name: "checkKey key = Inl e \<Longrightarrow> thrown_name e = Some ''ValidationError''"
  by (auto simp: checkKey_def ValidationError_def split: if_splits)

lemma checkKey_each_name:
  "checkKey_each keys = Inl e \<Longrightarrow> thrown_name e = Some ''ValidationError''"
  by (induction keys) (auto split: sum.splits dest: checkKey_name)

lemma checkKey_each_bad:
  "\<exists>k\<in>set keys. length k > 512 \<or> CHR '','' \<in> set k \<Longrightarrow> \<exists>e. checkKey_each keys = Inl e"
proof (induction keys)
  case Nil
  then show ?case by simp
next
  case (Cons k ks)
  show ?case
  proof (cases "checkKey k")
    case (Inl e)
    then show ?thesis by simp
  next
    case (Inr u)
    with checkKey_isl [of k] have "\<not> (length k > 512 \<or> CHR '','' \<in> set k)" by auto
    with Cons.prems have "\<exists>k\<in>set ks. length k > 512 \<or> CHR '','' \<in> set k" by auto
    with Cons.IH Inr show ?thesis by simp
  qed
qed

lemma checkKey_each_ok:
  "\<forall>k\<in>set keys. length k \<le> 512 \<and> CHR '','' \<notin> set k \<Longrightarrow> checkKey_each keys = Inr ()"
  by (induction keys) (auto simp: checkKey_def list_all_iff)

lemma restoreCache_validate_raises:
  assumes "paths = [] \<or> length (combined_keys primaryKey restoreKeys) > 10
     \<or> (\<exists>k\<in>set (combined_keys primaryKey restoreKeys). length k > 512 \<or> CHR '','' \<in> set k)"
  shows "raises_ValidationError (restoreCache_validate paths primaryKey restoreKeys)"
proof -
  let ?keys = "combined_keys primaryKey restoreKeys"
  show ?thesis
  proof (cases "paths = []")
    case True
    then show ?thesis
      by (simp add: raises_ValidationError_def restoreCache_validate_def snd_io_bind io_simps
          checkPaths_def ValidationError_def)
  next
    case False
    note ne = this
    show ?thesis
    proof (cases "length ?keys > 10")
      case True
      with ne show ?thesis
        by (simp add: raises_ValidationError_def restoreCache_validate_def snd_io_bind io_simps
            checkPaths_def ValidationError_def Let_def)
    next
      case False
      with ne assms have "\<exists>k\<in>set ?keys. length k > 512 \<or> CHR '','' \<in> set k" by blast
      from checkKey_each_bad [OF this] obtain e where e: "checkKey_each ?keys = Inl e" ..
      from checkKey_each_name [OF e] have "thrown_name e = Some ''ValidationError''" .
      with e ne False show ?thesis
        by (simp add: raises_ValidationError_def restoreCache_validate_def snd_io_bind io_simps
            checkPaths_def Let_def)
    qed
  qed
qed

lemma restoreCache_validate_ok:
  assumes "paths \<noteq> []" "length (combined_keys primaryKey restoreKeys) \<le> 10"
    "\<forall>k\<in>set (combined_keys primaryKey restoreKeys). length k \<le> 512 \<and> CHR '','' \<notin> set k"
  shows "snd (restoreCache_validate paths primaryKey restoreKeys)
           = Inr (combined_keys primaryKey restoreKeys)"
  using assms(1,2) checkKey_each_ok [OF assms(3)]
  by (simp add: restoreCache_validate_def snd_io_bind io_simps checkPaths_def Let_def)

lemma saveCache_resolve_raises:
  assumes "paths = [] \<or> length key > 512 \<or> CHR '','' \<in> set key"
  shows "raises_ValidationError (saveCache_resolve E paths key)"
proof (cases "paths = []")
  case True
  then show ?thesis
    by (simp add: raises_ValidationError_def saveCache_resolve_def snd_io_bind io_simps
        checkPaths_def ValidationError_def)
next
  case False
  with assms have "isl (checkKey key)" by (simp add: checkKey_isl)
  then obtain e where e: "checkKey key = Inl e" by (cases "checkKey key") auto
  from checkKey_name [OF e] have "thrown_name e = Some ''ValidationError''" .
  with e False show ?thesis
    by (simp add: raises_ValidationError_def saveCache_resolve_def snd_io_bind io_simps
        checkPaths_def)
qed

lemma saveCache_resolve_ok:
  assumes "paths \<noteq> []" "length key \<le> 512" "CHR '','' \<notin> set key"
    "resolvePaths E paths = Inr cachePaths" "cachePaths \<noteq> []"
  shows "snd (saveCache_resolve E paths key) = Inr cachePaths"
  using assms
  by (simp add: saveCache_resolve_def snd_io_bind io_simps checkPaths_def checkKey_def list_all_iff)

section \<open>The lookups never throw\<close>

lemma getCacheEntry_returns: "\<exists>r. snd (getCacheEntry E keys paths c x) = Inr r"
  by (induction keys) (auto simp: snd_io_bind io_simps Let_def split: option.splits)

lemma getRestoreKey_returns: "\<exists>r. snd (getRestoreKey E keys paths c x) = Inr r"
  by (induction keys) (auto simp: snd_io_bind io_simps Let_def split: option.splits)

section \<open>Evaluation on the concrete environments\<close>

lemmas env_eval =
  quiet_env_def restoreDir_index_def restoreDir_part000_def getPrefix_def getCacheVersion_def
  components_def cacheDir_index_def cacheDir_part000_def env_or_def versionSalt_def
  sortedKeys_def mtimeMs_def lists_children_def children_def times_readable_def
  hit_index_def hit_part000_def archiveFolder_index_def archiveFolder_part000_def
  archivePath_in_def combined_keys_def

section \<open>Hits and misses of the lookups\<close>

lemma sortedKeys_None_iff: "sortedKeys E dir files = None \<longleftrightarrow>
   \<not> (length files < 2 \<or> list_all (\<lambda>a. statSync E (array_join ''/'' [dir, a]) \<noteq> None) files)"
  by (simp add: sortedKeys_def)

lemma sortedKeys_set: "sortedKeys E dir files = Some s \<Longrightarrow> set s = set files \<and> length s = length files"
  by (auto simp: sortedKeys_def split: if_splits)

lemma sortedKeys_hd: "sortedKeys E dir files = Some s \<Longrightarrow> files \<noteq> [] \<Longrightarrow> hd s \<in> set files"
  using sortedKeys_set [of E dir files s] by (cases s) auto

lemma getRestoreKey_miss:
  "\<not> hit_part000 E paths c x k \<Longrightarrow>
   snd (getRestoreKey E (k # keys) paths c x) = snd (getRestoreKey E keys paths c x)"
  by (auto simp: hit_part000_def lists_children_def snd_io_bind io_simps Let_def split: option.splits)

lemma getRestoreKey_hit:
  "hit_part000 E paths c x k \<Longrightarrow>
   getRestoreKey E (k # keys) paths c x =
     ([ConsoleInfo (ReadingFiles (children E (restoreDir_part000 E paths c x k))),
       ConsoleInfo (Str (''Cache found with prefix '' @ k))], Inr (Some k))"
  by (auto simp: hit_part000_def lists_children_def children_def io_bind_def io_simps Let_def split: option.splits)

lemma getCacheEntry_miss:
  "\<not> hit_index E paths c x k \<Longrightarrow>
   snd (getCacheEntry E (k # keys) paths c x) = snd (getCacheEntry E keys paths c x)"
  by (auto simp: hit_index_def lists_children_def times_readable_def children_def sortedKeys_def
      snd_io_bind io_simps Let_def split: option.splits)

lemma getCacheEntry_hit_eq:
  assumes "hit_index E paths c x k"
  shows "getCacheEntry E (k # keys) paths c x =
       ([], Inr (Some \<lparr>cacheKey = hd (the (sortedKeys E (restoreDir_index E paths c x k)
                                               (children E (restoreDir_index E paths c x k)))),
                        archiveLocation = restoreDir_index E paths c x k\<rparr>))"
proof -
  let ?dir = "restoreDir_index E paths c x k"
  from assms obtain files where f: "readdir E ?dir = Some files" "files \<noteq> []"
    by (auto simp: hit_index_def lists_children_def split: option.splits)
  then have ch: "children E ?dir = files" by (simp add: children_def)
  from assms ch have "sortedKeys E ?dir files \<noteq> None"
    by (simp add: hit_index_def times_readable_def sortedKeys_None_iff)
  then obtain s where s: "sortedKeys E ?dir files = Some s" by blast
  show ?thesis
    using f s ch by (simp add: Let_def io_simps)
qed

lemma getCacheEntry_hit:
  assumes "hit_index E paths c x k"
  shows "\<exists>child\<in>set (children E (restoreDir_index E paths c x k)).
     getCacheEntry E (k # keys) paths c x =
       ([], Inr (Some \<lparr>cacheKey = child, archiveLocation = restoreDir_index E paths c x k\<rparr>))"
proof -
  let ?dir = "restoreDir_index E paths c x k"
  from assms have ne: "children E ?dir \<noteq> []"
    by (auto simp: hit_index_def lists_children_def children_def split: option.splits)
  from assms have "sortedKeys E ?dir (children E ?dir) \<noteq> None"
    by (simp add: hit_index_def times_readable_def sortedKeys_None_iff)
  then obtain s where s: "sortedKeys E ?dir (children E ?dir) = Some s" by blast
  from sortedKeys_hd [OF s ne] have "hd s \<in> set (children E ?dir)" .
  with getCacheEntry_hit_eq [OF assms, of keys] s show ?thesis by auto
qed

lemma getCacheEntry_all_miss:
  "\<forall>k\<in>set keys. \<not> hit_index E paths c x k \<Longrightarrow> snd (getCacheEntry E keys paths c x) = Inr None"
proof (induction keys)
  case Nil
  then show ?case by (simp add: io_simps)
next
  case (Cons k keys)
  then show ?case using getCacheEntry_miss [of E paths c x k keys] by simp
qed

lemma getRestoreKey_all_miss:
  "\<forall>k\<in>set keys. \<not> hit_part000 E paths c x k \<Longrightarrow> snd (getRestoreKey E keys paths c x) = Inr None"
proof (induction keys)
  case Nil
  then show ?case by (simp add: io_simps)
next
  case (Cons k keys)
  then show ?case using getRestoreKey_miss [of E paths c x k keys] by simp
qed

lemma getCacheEntry_tail:
  assumes "hit_index E paths c x k"
  shows "getCacheEntry E (before @ k # after) paths c x = getCacheEntry E (before @ [k]) paths c x"
proof (induction before)
  case Nil
  from getCacheEntry_hit_eq [OF assms, of after] getCacheEntry_hit_eq [OF assms, of "[]"]
  show ?case by simp
next
  case (Cons b before)
  then show ?case by (simp add: Let_def split: option.splits)
qed

lemma getRestoreKey_tail:
  assumes "hit_part000 E paths c x k"
  shows "getRestoreKey E (before @ k # after) paths c x = getRestoreKey E (before @ [k]) paths c x"
proof (induction before)
  case Nil
  from getRestoreKey_hit [OF assms, of after] getRestoreKey_hit [OF assms, of "[]"]
  show ?case by auto
next
  case (Cons b before)
  then show ?case by (simp add: Let_def split: option.splits)
qed

lemma getCacheEntry_first_hit:
  assumes "\<forall>k'\<in>set before. \<not> hit_index E paths c x k'" "hit_index E paths c x k"
  shows "\<exists>child\<in>set (children E (restoreDir_index E paths c x k)).
     snd (getCacheEntry E (before @ k # after) paths c x) =
       Inr (Some \<lparr>cacheKey = child, archiveLocation = restoreDir_index E paths c x k\<rparr>)"
  using assms(1)
proof (induction before)
  case Nil
  from getCacheEntry_hit [OF assms(2), of after] show ?case by auto
next
  case (Cons b before)
  then show ?case using getCacheEntry_miss [of E paths c x b "before @ k # after"] by simp
qed

lemma getRestoreKey_first_hit:
  assumes "\<forall>k'\<in>set before. \<not> hit_part000 E paths c x k'" "hit_part000 E paths c x k"
  shows "snd (getRestoreKey E (before @ k # after) paths c x) = Inr (Some k)"
  using assms(1)
proof (induction before)
  case Nil
  from getRestoreKey_hit [OF assms(2), of after] show ?case by auto
next
  case (Cons b before)
  then show ?case using getRestoreKey_miss [of E paths c x b "before @ k # after"] by simp
qed

lemma getRestoreKey_member:
  "snd (getRestoreKey E keys paths c x) = Inr (Some k) \<Longrightarrow> k \<in> set keys"
proof (induction keys)
  case Nil
  then show ?case by (simp add: io_simps)
next
  case (Cons a keys)
  show ?case
  proof (cases "hit_part000 E paths c x a")
    case True
    from getRestoreKey_hit [OF True, of keys] Cons.prems show ?thesis by simp
  next
    case False
    from getRestoreKey_miss [OF False, of keys] Cons show ?thesis by simp
  qed
qed

text \<open>
  What \<^verbatim>\<open>getCacheEntry\<close> selects is a child of the directory of one of the keys; on a
  hit it is a child whose modification time is the least.
\<close>

lemma hd_sort_key_le:
  assumes "a \<in> set xs"
  shows "f (hd (sort_key f xs)) \<le> f a"
proof -
  have s: "sorted (map f (sort_key f xs))" by (rule sorted_sort_key)
  have "set (sort_key f xs) = set xs" by simp
  with assms have a: "a \<in> set (sort_key f xs)" by simp
  then obtain y ys where ys: "sort_key f xs = y # ys" by (cases "sort_key f xs") auto
  with s a show ?thesis by auto
qed

lemma getCacheEntry_selects_oldest:
  assumes "hit_index E paths c x k"
    and "snd (getCacheEntry E (k # keys) paths c x) = Inr (Some entry)"
    and "a \<in> set (children E (restoreDir_index E paths c x k))"
  shows "mtimeMs E (restoreDir_index E paths c x k) (cacheKey entry)
           \<le> mtimeMs E (restoreDir_index E paths c x k) a"
proof -
  let ?dir = "restoreDir_index E paths c x k"
  let ?files = "children E ?dir"
  from getCacheEntry_hit_eq [OF assms(1), of keys] assms(2)
  have e: "cacheKey entry = hd (the (sortedKeys E ?dir ?files))" by auto
  show ?thesis
  proof (cases "length ?files < 2")
    case True
    with assms(3) have "?files = [a]"
      by (cases ?files; cases "tl ?files") auto
    with e show ?thesis by (simp add: sortedKeys_def)
  next
    case False
    with assms(1) have "sortedKeys E ?dir ?files = Some (sort_key (mtimeMs E ?dir) ?files)"
      by (simp add: sortedKeys_def hit_index_def times_readable_def)
    with e assms(3) show ?thesis by (simp add: hd_sort_key_le)
  qed
qed

lemma getCacheEntry_child:
  "snd (getCacheEntry E keys paths c x) = Inr (Some entry) \<Longrightarrow>
   \<exists>k\<in>set keys. cacheKey entry \<in> set (children E (restoreDir_index E paths c x k))
                 \<and> archiveLocation entry = restoreDir_index E paths c x k"
proof (induction keys)
  case Nil
  then show ?case by (simp add: io_simps)
next
  case (Cons a keys)
  show ?case
  proof (cases "hit_index E paths c x a")
    case True
    from getCacheEntry_hit [OF True, of keys] Cons.prems show ?thesis by auto
  next
    case False
    from getCacheEntry_miss [OF False, of keys] Cons show ?thesis by auto
  qed
qed

lemma getRestoreKey_ignores_times:
  "getRestoreKey (E\<lparr>statSync := st\<rparr>) keys paths c x = getRestoreKey E keys paths c x"
proof (induction keys)
  case Nil
  show ?case by simp
next
  case (Cons k keys)
  have "restoreDir_part000 (E\<lparr>statSync := st\<rparr>) paths c x k = restoreDir_part000 E paths c x k"
    by (simp add: restoreDir_part000_def getPrefix_def getCacheVersion_def components_def
        cacheDir_part000_def env_or_def)
  with Cons show ?case by (simp add: Let_def split: option.splits)
qed

section \<open>Calls on which every helper succeeds\<close>

lemma helpers_succeed_quiet: "helpers_succeed quiet_env"
  by (simp add: helpers_succeed_def quiet_env_def)

lemma saveCache_try_ok:
  assumes "helpers_succeed E"
  shows "snd (saveCache_try E folder path cachePaths c) = Inr 1"
proof -
  from assms obtain n where "getArchiveFileSizeInBytes E path = Inr n"
    unfolding helpers_succeed_def by blast
  with assms show ?thesis
    by (simp add: saveCache_try_def helpers_succeed_def snd_io_bind io_simps)
qed

lemma saveCache_index_ok:
  assumes "helpers_succeed E" "snd (saveCache_resolve E paths key) = Inr cachePaths"
  shows "snd (saveCache_index E paths key x) = Inr 1"
proof -
  have "mkdir E (cacheDir_index E) = None"
    using assms(1) unfolding helpers_succeed_def by blast
  then show ?thesis
    using assms(2) saveCache_try_ok [OF assms(1)]
    by (simp add: saveCache_index_def snd_io_bind snd_try_finally snd_try_catch io_simps Let_def
        split: option.splits)
qed

lemma saveCache_part000_ok:
  assumes "helpers_succeed E" "snd (saveCache_resolve E paths key) = Inr cachePaths"
  shows "snd (saveCache_part000 E paths key x) = Inr 1"
proof -
  have "mkdir E (archiveFolder_part000 E paths key x) = None"
    using assms(1) unfolding helpers_succeed_def by blast
  then show ?thesis
    using assms(2) saveCache_try_ok [OF assms(1)]
    by (simp add: saveCache_part000_def snd_io_bind snd_try_finally snd_try_catch io_simps Let_def
        split: option.splits)
qed

lemma restoreCache_catch_string: "snd (restoreCache_catch (ThrownString s)) = Inr None"
  by (simp add: restoreCache_catch_def snd_io_bind io_simps)

lemma restoreCache_try_index_ok:
  assumes "helpers_succeed E"
  shows "(\<exists>r. snd (restoreCache_try_index E keys paths c x) = Inr r)
    \<or> snd (restoreCache_try_index E keys paths c x) = Inl (ThrownString ''cache entry not found'')"
proof -
  obtain r where r: "snd (getCacheEntry E keys paths c x) = Inr r"
    using getCacheEntry_returns by blast
  show ?thesis
  proof (cases r)
    case None
    with r show ?thesis
      by (simp add: restoreCache_try_index_def snd_io_bind io_simps)
  next
    case (Some entry)
    let ?p = "array_join ''/'' [archiveLocation entry, cacheKey entry]"
    from assms obtain n where "getArchiveFileSizeInBytes E ?p = Inr n"
      unfolding helpers_succeed_def by blast
    with r Some assms show ?thesis
      by (simp add: restoreCache_try_index_def snd_io_bind io_simps Let_def helpers_succeed_def)
  qed
qed

lemma restoreCache_try_part000_ok:
  assumes "helpers_succeed E"
  shows "(\<exists>r. snd (restoreCache_try_part000 E keys paths c x) = Inr r)
    \<or> snd (restoreCache_try_part000 E keys paths c x) = Inl (ThrownString ''cache entry not found'')"
proof -
  obtain r where r: "snd (getRestoreKey E keys paths c x) = Inr r"
    using getRestoreKey_returns by blast
  show ?thesis
  proof (cases r)
    case None
    with r show ?thesis
      by (simp add: restoreCache_try_part000_def snd_io_bind io_simps)
  next
    case (Some k)
    let ?p = "path_join E [restoreDir_part000 E paths c x k, getCacheFileName E c]"
    from assms obtain n where "getArchiveFileSizeInBytes E ?p = Inr n"
      unfolding helpers_succeed_def by blast
    with r Some assms show ?thesis
      by (simp add: restoreCache_try_part000_def snd_io_bind io_simps Let_def helpers_succeed_def)
  qed
qed

lemma restoreCache_index_ok:
  assumes "helpers_succeed E"
    "snd (restoreCache_validate paths primaryKey restoreKeys) = Inr keys"
  shows "\<not> isl (snd (restoreCache_index E paths primaryKey restoreKeys x))"
  using restoreCache_try_index_ok [OF assms(1), of keys paths "getCompressionMethod E" x] assms(2)
  by (auto simp: restoreCache_index_def snd_io_bind snd_try_catch Let_def restoreCache_catch_string)

lemma restoreCache_part000_ok:
  assumes "helpers_succeed E"
    "snd (restoreCache_validate paths primaryKey restoreKeys) = Inr keys"
  shows "\<not> isl (snd (restoreCache_part000 E paths primaryKey restoreKeys x))"
  using restoreCache_try_part000_ok [OF assms(1), of keys paths "getCompressionMethod E" x] assms(2)
  by (auto simp: restoreCache_part000_def snd_io_bind snd_try_catch Let_def restoreCache_catch_string)

section \<open>What the restore functions return\<close>

lemma restoreCache_validate_keys:
  "snd (restoreCache_validate paths primaryKey restoreKeys) = Inr keys \<Longrightarrow>
   keys = combined_keys primaryKey restoreKeys"
  by (auto simp: restoreCache_validate_def snd_io_bind io_simps Let_def split: sum.splits if_splits)

lemma restoreCache_catch_not_Some: "snd (restoreCache_catch e) \<noteq> Inr (Some k)"
  by (simp add: restoreCache_catch_def snd_io_bind io_simps)

lemma restoreCache_try_part000_member:
  assumes "snd (restoreCache_try_part000 E keys paths c x) = Inr (Some k)"
  shows "k \<in> set keys"
proof -
  obtain r where r: "snd (getRestoreKey E keys paths c x) = Inr r"
    using getRestoreKey_returns by blast
  show ?thesis
  proof (cases r)
    case None
    with r assms show ?thesis
      by (simp add: restoreCache_try_part000_def snd_io_bind io_simps)
  next
    case (Some k')
    with r assms have "k' = k"
      by (auto simp: restoreCache_try_part000_def snd_io_bind io_simps Let_def
          split: sum.splits if_splits option.splits)
    with r Some show ?thesis by (auto dest: getRestoreKey_member)
  qed
qed

lemma restoreCache_part000_returns_key:
  assumes "snd (restoreCache_part000 E paths primaryKey restoreKeys x) = Inr (Some k)"
  shows "k \<in> set (combined_keys primaryKey restoreKeys)"
proof (cases "snd (restoreCache_validate paths primaryKey restoreKeys)")
  case (Inl e)
  with assms show ?thesis by (simp add: restoreCache_part000_def snd_io_bind)
next
  case (Inr keys)
  then have keys: "keys = combined_keys primaryKey restoreKeys"
    by (rule restoreCache_validate_keys)
  from assms Inr
  have "snd (restoreCache_try_part000 E keys paths (getCompressionMethod E) x) = Inr (Some k)"
    by (auto simp: restoreCache_part000_def snd_io_bind snd_try_catch Let_def
        restoreCache_catch_not_Some split: sum.splits)
  from restoreCache_try_part000_member [OF this] keys show ?thesis by simp
qed

lemma restoreCache_index_miss:
  assumes "snd (restoreCache_validate paths primaryKey restoreKeys) = Inr keys"
    "\<forall>k\<in>set keys. \<not> hit_index E paths (getCompressionMethod E) x k"
  shows "snd (restoreCache_index E paths primaryKey restoreKeys x) = Inr None"
  using assms(1) getCacheEntry_all_miss [OF assms(2)]
  by (simp add: restoreCache_index_def restoreCache_try_index_def snd_io_bind snd_try_catch
      Let_def io_simps restoreCache_catch_def)

lemma restoreCache_part000_miss:
  assumes "snd (restoreCache_validate paths primaryKey restoreKeys) = Inr keys"
    "\<forall>k\<in>set keys. \<not> hit_part000 E paths (getCompressionMethod E) x k"
  shows "snd (restoreCache_part000 E paths primaryKey restoreKeys x) = Inr None"
  using assms(1) getRestoreKey_all_miss [OF assms(2)]
  by (simp add: restoreCache_part000_def restoreCache_try_part000_def snd_io_bind snd_try_catch
      Let_def io_simps restoreCache_catch_def)

lemma restoreCache_try_index_child:
  assumes "snd (restoreCache_try_index E keys paths c x) = Inr (Some r)"
  shows "\<exists>k\<in>set keys. r \<in> set (children E (restoreDir_index E paths c x k))"
proof -
  obtain found where f: "snd (getCacheEntry E keys paths c x) = Inr found"
    using getCacheEntry_returns by blast
  show ?thesis
  proof (cases found)
    case None
    with f assms show ?thesis
      by (simp add: restoreCache_try_index_def snd_io_bind io_simps)
  next
    case (Some entry)
    with f assms have "cacheKey entry = r"
      by (auto simp: restoreCache_try_index_def snd_io_bind io_simps Let_def
          split: sum.splits if_splits option.splits)
    with getCacheEntry_child [of E keys paths c x entry] f Some show ?thesis by auto
  qed
qed

lemma restoreCache_index_returns_a_child:
  assumes "snd (restoreCache_index E paths primaryKey restoreKeys x) = Inr (Some r)"
  shows "\<exists>k\<in>set (combined_keys primaryKey restoreKeys).
           r \<in> set (children E (restoreDir_index E paths (getCompressionMethod E) x k))"
proof (cases "snd (restoreCache_validate paths primaryKey restoreKeys)")
  case (Inl e)
  with assms show ?thesis by (simp add: restoreCache_index_def snd_io_bind)
next
  case (Inr keys)
  then have keys: "keys = combined_keys primaryKey restoreKeys"
    by (rule restoreCache_validate_keys)
  from assms Inr
  have "snd (restoreCache_try_index E keys paths (getCompressionMethod E) x) = Inr (Some r)"
    by (auto simp: restoreCache_index_def snd_io_bind snd_try_catch Let_def
        restoreCache_catch_not_Some split: sum.splits)
  from restoreCache_try_index_child [OF this] keys show ?thesis by simp
qed

section \<open>The guarded block of the save functions\<close>

lemma saveCache_catch_outcome:
  "snd (saveCache_catch e) = (if thrown_name e = Some ''ValidationError'' then Inl e else Inr (- 1))"
  by (simp add: saveCache_catch_def snd_io_bind io_simps)

lemma saveCache_catch_reports:
  "fst (saveCache_catch e) =
     (if thrown_name e = Some ''ValidationError'' then []
      else if thrown_name e = Some ''ReserveCacheError''
      then [Info (Str (''Failed to save: '' @ render_undefined (thrown_message e)))]
      else [Warning (Str (''Failed to save: '' @ render_undefined (thrown_message e)))])"
  by (simp add: saveCache_catch_def fst_io_bind io_simps)

lemma unlink_cleanup_returns:
  "snd (case r of None \<Rightarrow> io_return () | Some error \<Rightarrow> io_log (Debug (WithThrown s error))) = Inr ()"
  by (simp add: io_simps split: option.splits)

lemma guarded_block_outcome:
  assumes "snd m = Inl e" "snd cleanup = Inr ()"
  shows "snd (try_finally (try_catch m saveCache_catch) cleanup) =
           (if thrown_name e = Some ''ValidationError'' then Inl e else Inr (- 1))"
  using assms by (simp add: snd_try_finally snd_try_catch saveCache_catch_outcome)

lemma guarded_block_reports:
  assumes "snd m = Inl e"
  shows "fst (try_finally (try_catch m saveCache_catch) cleanup) =
           fst m @ fst (saveCache_catch e) @ fst cleanup"
  using assms by (simp add: fst_try_finally fst_try_catch)

lemma in_fst_io_bind:
  "snd m = Inr v \<Longrightarrow> r \<in> set (fst (f v)) \<Longrightarrow> r \<in> set (fst (io_bind m f))"
  by (simp add: fst_io_bind)

lemma saveCache_index_guarded:
  assumes "snd (saveCache_resolve E paths key) = Inr cachePaths"
    and "mkdir E (cacheDir_index E) = None"
    and "snd (saveCache_try E (archiveFolder_index E paths key x)
           (archivePath_in E (archiveFolder_index E paths key x)) cachePaths
           (getCompressionMethod E)) = Inl e"
  shows "snd (saveCache_index E paths key x) =
           (if thrown_name e = Some ''ValidationError'' then Inl e else Inr (- 1))"
    and "set (fst (saveCache_catch e)) \<subseteq> set (fst (saveCache_index E paths key x))"
proof -
  let ?folder = "archiveFolder_index E paths key x"
  let ?m = "saveCache_try E ?folder (archivePath_in E ?folder) cachePaths (getCompressionMethod E)"
  let ?c = "case unlinkFile E (archivePath_in E ?folder) of
              None \<Rightarrow> io_return ()
            | Some error \<Rightarrow> io_log (Debug (WithThrown ''Failed to delete archive: '' error))"
  have c: "snd ?c = Inr ()" by (rule unlink_cleanup_returns)
  show "snd (saveCache_index E paths key x) =
           (if thrown_name e = Some ''ValidationError'' then Inl e else Inr (- 1))"
    using assms(1,2) guarded_block_outcome [OF assms(3) c]
    by (simp add: saveCache_index_def snd_io_bind io_simps Let_def)
  show "set (fst (saveCache_catch e)) \<subseteq> set (fst (saveCache_index E paths key x))"
    using assms(1,2) guarded_block_reports [OF assms(3), of ?c]
    by (auto simp: saveCache_index_def fst_io_bind snd_io_bind io_simps Let_def)
qed

lemma saveCache_part000_guarded:
  assumes "snd (saveCache_resolve E paths key) = Inr cachePaths"
    and "mkdir E (archiveFolder_part000 E paths key x) = None"
    and "snd (saveCache_try E (archiveFolder_part000 E paths key x)
           (archivePath_in E (archiveFolder_part000 E paths key x)) cachePaths
           (getCompressionMethod E)) = Inl e"
  shows "snd (saveCache_part000 E paths key x) =
           (if thrown_name e = Some ''ValidationError'' then Inl e else Inr (- 1))"
    and "set (fst (saveCache_catch e)) \<subseteq> set (fst (saveCache_part000 E paths key x))"
proof -
  let ?folder = "archiveFolder_part000 E paths key x"
  let ?m = "saveCache_try E ?folder (archivePath_in E ?folder) cachePaths (getCompressionMethod E)"
  let ?c = "case unlinkFile E (path_join E [?folder, ''manifest.txt'']) of
              None \<Rightarrow> io_return ()
            | Some error \<Rightarrow> io_log (Debug (WithThrown ''Failed to delete manifest: '' error))"
  have c: "snd ?c = Inr ()" by (rule unlink_cleanup_returns)
  show "snd (saveCache_part000 E paths key x) =
           (if thrown_name e = Some ''ValidationError'' then Inl e else Inr (- 1))"
    using assms(1,2) guarded_block_outcome [OF assms(3) c]
    by (simp add: saveCache_part000_def snd_io_bind io_simps Let_def split: option.splits)
  show "set (fst (saveCache_catch e)) \<subseteq> set (fst (saveCache_part000 E paths key x))"
    using assms(1,2) guarded_block_reports [OF assms(3), of ?c]
    by (auto simp: saveCache_part000_def fst_io_bind snd_io_bind io_simps Let_def
        split: option.splits)
qed

lemma saveCache_try_createTar:
  "createTar E folder cachePaths c = Some e \<Longrightarrow>
   snd (saveCache_try E folder path cachePaths c) = Inl e"
  by (simp add: saveCache_try_def snd_io_bind io_simps)

lemma saveCache_try_listTar:
  "createTar E folder cachePaths c = None \<Longrightarrow> isDebug E \<Longrightarrow>
   listTar E path c = Some e \<Longrightarrow>
   snd (saveCache_try E folder path cachePaths c) = Inl e"
  by (simp add: saveCache_try_def snd_io_bind io_simps)

lemma saveCache_try_size:
  "createTar E folder cachePaths c = None \<Longrightarrow> \<not> isDebug E \<or> listTar E path c = None \<Longrightarrow>
   getArchiveFileSizeInBytes E path = Inl e \<Longrightarrow>
   snd (saveCache_try E folder path cachePaths c) = Inl e"
  by (auto simp: saveCache_try_def snd_io_bind io_simps)

lemma saveCache_try_returns:
  "createTar E folder cachePaths c = None \<Longrightarrow> \<not> isDebug E \<or> listTar E path c = None \<Longrightarrow>
   getArchiveFileSizeInBytes E path = Inr n \<Longrightarrow>
   snd (saveCache_try E folder path cachePaths c) = Inr 1"
  by (auto simp: saveCache_try_def snd_io_bind io_simps)

section \<open>The string that is hashed\<close>

lemma array_join_Cons:
  "array_join sep (x # xs) = (if xs = [] then x else x @ sep @ array_join sep xs)"
  by (cases xs) simp_all

lemma array_join_append:
  "ys \<noteq> [] \<Longrightarrow> array_join sep (xs @ ys) = concat (map (\<lambda>x. x @ sep) xs) @ array_join sep ys"
  by (induction xs) (simp_all add: array_join_Cons)

lemma terminated_unique:
  "x @ s # r = y @ s # r' \<Longrightarrow> s \<notin> set x \<Longrightarrow> s \<notin> set y \<Longrightarrow> x = y \<and> r = r'"
proof (induction x arbitrary: y)
  case Nil
  then show ?case by (cases y) auto
next
  case (Cons a x)
  then show ?case by (cases y) auto
qed

lemma terminated_concat_inj:
  assumes "concat (map (\<lambda>x. x @ [s]) xs) = concat (map (\<lambda>x. x @ [s]) ys)"
    and "\<forall>x\<in>set xs. s \<notin> set x" and "\<forall>y\<in>set ys. s \<notin> set y"
  shows "xs = ys"
  using assms
proof (induction xs arbitrary: ys)
  case Nil
  then show ?case by (cases ys) auto
next
  case (Cons x xs)
  show ?case
  proof (cases ys)
    case Nil
    with Cons.prems show ?thesis by simp
  next
    case (Cons y ys')
    with Cons.prems
    have eq: "x @ s # concat (map (\<lambda>x. x @ [s]) xs) = y @ s # concat (map (\<lambda>x. x @ [s]) ys')"
      by simp
    from Cons.prems Cons have "s \<notin> set x" "s \<notin> set y" by auto
    from terminated_unique [OF eq this]
    have "x = y" and "concat (map (\<lambda>x. x @ [s]) xs) = concat (map (\<lambda>x. x @ [s]) ys')"
      by simp_all
    with Cons.IH [of ys'] Cons.prems Cons show ?thesis by auto
  qed
qed

lemma joined_components:
  "array_join ''|'' (components E paths c x) =
     concat (map (\<lambda>p. p @ ''|'') paths)
     @ concat (map (\<lambda>p. p @ ''|'') (case c of None \<Rightarrow> [] | Some m \<Rightarrow> [CompressionMethod_value m]))
     @ array_join ''|''
         ((if platform E = ''win32'' \<and> \<not> x then [''windows-only''] else []) @ [versionSalt])"
proof -
  let ?cs = "case c of None \<Rightarrow> [] | Some m \<Rightarrow> [CompressionMethod_value m]"
  let ?rest = "(if platform E = ''win32'' \<and> \<not> x then [''windows-only''] else []) @ [versionSalt]"
  have "array_join ''|'' ((paths @ ?cs) @ ?rest)
          = concat (map (\<lambda>p. p @ ''|'') (paths @ ?cs)) @ array_join ''|'' ?rest"
    by (rule array_join_append) simp
  then show ?thesis
    by (simp add: components_def)
qed

lemma joined_change_path:
  assumes "i < length paths" "p \<noteq> paths ! i"
  shows "array_join ''|'' (components E (paths[i := p]) c x)
           \<noteq> array_join ''|'' (components E paths c x)"
proof -
  have 1: "paths[i := p] = take i paths @ p # drop (Suc i) paths"
    using assms(1) by (rule upd_conv_take_nth_drop)
  have 2: "paths = take i paths @ paths ! i # drop (Suc i) paths"
    using assms(1) by (rule id_take_nth_drop)
  have "concat (map (\<lambda>p. p @ ''|'') (take i paths @ p # drop (Suc i) paths))
          \<noteq> concat (map (\<lambda>p. p @ ''|'') (take i paths @ paths ! i # drop (Suc i) paths))"
    using assms(2) by simp
  with 1 2 have "concat (map (\<lambda>p. p @ ''|'') (paths[i := p])) \<noteq> concat (map (\<lambda>p. p @ ''|'') paths)"
    by simp
  then show ?thesis by (simp add: joined_components)
qed

lemma compression_part_inj:
  "concat (map (\<lambda>p. p @ ''|'') (case c of None \<Rightarrow> [] | Some m \<Rightarrow> [CompressionMethod_value m]))
   = concat (map (\<lambda>p. p @ ''|'') (case c' of None \<Rightarrow> [] | Some m \<Rightarrow> [CompressionMethod_value m]))
   \<Longrightarrow> c = c'"
proof (cases c; cases c')
  fix m m' assume "c = Some m" "c' = Some m'"
    and "concat (map (\<lambda>p. p @ ''|'') (case c of None \<Rightarrow> [] | Some m \<Rightarrow> [CompressionMethod_value m]))
   = concat (map (\<lambda>p. p @ ''|'') (case c' of None \<Rightarrow> [] | Some m \<Rightarrow> [CompressionMethod_value m]))"
  then show "c = c'" by (cases m; cases m') simp_all
qed simp_all

lemma joined_change_compression:
  assumes "c \<noteq> c'"
  shows "array_join ''|'' (components E paths c x) \<noteq> array_join ''|'' (components E paths c' x)"
  using assms compression_part_inj [of c c'] by (auto simp: joined_components)

lemma joined_change_paths:
  assumes "paths' \<noteq> paths" "\<forall>q\<in>set paths. CHR ''|'' \<notin> set q" "\<forall>q\<in>set paths'. CHR ''|'' \<notin> set q"
  shows "array_join ''|'' (components E paths' c x) \<noteq> array_join ''|'' (components E paths c x)"
proof
  assume "array_join ''|'' (components E paths' c x) = array_join ''|'' (components E paths c x)"
  then have "concat (map (\<lambda>p. p @ [CHR ''|'']) paths') = concat (map (\<lambda>p. p @ [CHR ''|'']) paths)"
    by (simp add: joined_components)
  from terminated_concat_inj [OF this assms(3) assms(2)] assms(1) show False by simp
qed

lemma getCacheVersion_eq_iff:
  assumes "inj (sha256_hex E)"
  shows "getCacheVersion E paths c x = getCacheVersion E paths' c' x' \<longleftrightarrow>
         array_join ''|'' (components E paths c x) = array_join ''|'' (components E paths' c' x')"
  using assms by (simp add: getCacheVersion_def inj_eq)

section \<open>The fingerprint on the store\<close>

lemma array_get_push_other: "r' \<noteq> r \<Longrightarrow> cells (array_push s r v) r' = cells s r'"
  by (simp add: array_push_def)

lemma array_get_push_same: "array_get (array_push s r v) r = array_get s r @ [v]"
  by (simp add: array_push_def array_get_def)

lemma getCacheVersion_store_cells:
  assumes "r < next_ref s"
  shows "cells (snd (getCacheVersion_store E s paths c x)) r = cells s r"
  using assms
  by (auto simp: getCacheVersion_store_def array_slice_def array_push_def Let_def
      split: option.splits)

lemma getCacheVersion_store_value:
  "fst (getCacheVersion_store E s paths c x) = getCacheVersion E (array_get s paths) c x"
  by (auto simp: getCacheVersion_store_def getCacheVersion_def components_def array_slice_def
      array_push_def array_get_def Let_def split: option.splits)

section \<open>Claims about validation\<close>

text \<open>
  C4. A key longer than 512 characters or with a comma makes \<^verbatim>\<open>saveCache\<close> raise a
  \<^verbatim>\<open>ValidationError\<close>, and so does an empty path list. \<^verbatim>\<open>restoreCache\<close> raises a
  \<^verbatim>\<open>ValidationError\<close> when the path list is empty, when the combined list of the primary
  key and the restore keys has more than 10 entries, and when any key of that list is longer
  than 512 characters or has a comma. This holds for both variants, whatever the
  environment does.
\<close>

theorem validation_raises_ValidationError:
  "(paths = [] \<or> length key > 512 \<or> CHR '','' \<in> set key \<longrightarrow>
      raises_ValidationError (saveCache_index E paths key x)
      \<and> raises_ValidationError (saveCache_part000 E paths key x))
   \<and> (paths = []
       \<or> length (combined_keys primaryKey restoreKeys) > 10
       \<or> (\<exists>k\<in>set (combined_keys primaryKey restoreKeys). length k > 512 \<or> CHR '','' \<in> set k) \<longrightarrow>
      raises_ValidationError (restoreCache_index E paths primaryKey restoreKeys x)
      \<and> raises_ValidationError (restoreCache_part000 E paths primaryKey restoreKeys x))"
  using saveCache_resolve_raises [of paths key E]
    restoreCache_validate_raises [of paths primaryKey restoreKeys]
  unfolding saveCache_index_def saveCache_part000_def restoreCache_index_def
    restoreCache_part000_def
  by (blast intro: raises_ValidationError_bind)

text \<open>
  The theorem at a key of 513 characters given to \<^verbatim>\<open>saveCache\<close> and at a primary key
  followed by 10 restore keys given to \<^verbatim>\<open>restoreCache\<close>.
\<close>

theorem validation_raises_ValidationError_witness:
  "length (replicate 513 (CHR ''k'')) > 512
   \<and> raises_ValidationError (saveCache_index quiet_env [''target''] (replicate 513 (CHR ''k'')) False)
   \<and> raises_ValidationError (saveCache_part000 quiet_env [''target''] (replicate 513 (CHR ''k'')) False)
   \<and> length (combined_keys ''k0'' (Some (replicate 10 ''k''))) > 10
   \<and> raises_ValidationError
        (restoreCache_index quiet_env [''target''] ''k0'' (Some (replicate 10 ''k'')) False)
   \<and> raises_ValidationError
        (restoreCache_part000 quiet_env [''target''] ''k0'' (Some (replicate 10 ''k'')) False)"
proof -
  have 1: "length (replicate 513 (CHR ''k'')) > 512"
    by simp
  have 2: "length (combined_keys ''k0'' (Some (replicate 10 ''k''))) > 10"
    by (simp add: combined_keys_def)
  show ?thesis
    using 1 2
      validation_raises_ValidationError [of "[''target'']" "replicate 513 (CHR ''k'')"
        quiet_env False "''k0''" "Some (replicate 10 ''k'')"]
    by blast
qed

text \<open>
  C10. \<^verbatim>\<open>checkKey\<close> throws exactly when the key is longer than 512 characters or has a
  comma, and what it throws is a \<^verbatim>\<open>ValidationError\<close>. The empty key and a key of exactly
  512 characters pass. With a key that passes, a non-empty path list, paths that resolve to
  something and helpers that succeed, \<^verbatim>\<open>saveCache\<close> returns 1 and
  \<^verbatim>\<open>restoreCache\<close> returns without throwing, in both variants.
\<close>

theorem checkKey_raises_iff:
  "(isl (checkKey key) \<longleftrightarrow> (length key > 512 \<or> CHR '','' \<in> set key))
   \<and> (\<forall>e. checkKey key = Inl e \<longrightarrow> thrown_name e = Some ''ValidationError'')
   \<and> checkKey [] = Inr ()
   \<and> checkKey (replicate 512 (CHR ''k'')) = Inr ()
   \<and> (length key \<le> 512 \<and> CHR '','' \<notin> set key \<and> paths \<noteq> [] \<and> helpers_succeed E
        \<and> resolvePaths E paths = Inr cachePaths \<and> cachePaths \<noteq> [] \<longrightarrow>
      snd (saveCache_index E paths key x) = Inr 1
      \<and> snd (saveCache_part000 E paths key x) = Inr 1
      \<and> \<not> isl (snd (restoreCache_index E paths key None x))
      \<and> \<not> isl (snd (restoreCache_part000 E paths key None x)))"
proof (intro conjI impI allI)
  show "isl (checkKey key) \<longleftrightarrow> (length key > 512 \<or> CHR '','' \<in> set key)"
    by (rule checkKey_isl)
  show "checkKey [] = Inr ()"
    by (simp add: checkKey_def)
  show "checkKey (replicate 512 (CHR ''k'')) = Inr ()"
    by (simp add: checkKey_def list_all_iff)
next
  fix e assume "checkKey key = Inl e"
  then show "thrown_name e = Some ''ValidationError''" by (rule checkKey_name)
next
  assume a: "length key \<le> 512 \<and> CHR '','' \<notin> set key \<and> paths \<noteq> [] \<and> helpers_succeed E
        \<and> resolvePaths E paths = Inr cachePaths \<and> cachePaths \<noteq> []"
  then have res: "snd (saveCache_resolve E paths key) = Inr cachePaths"
    by (intro saveCache_resolve_ok) auto
  from a have val: "snd (restoreCache_validate paths key None) = Inr (combined_keys key None)"
    by (intro restoreCache_validate_ok) (auto simp: combined_keys_def)
  from a have h: "helpers_succeed E" by blast
  show "snd (saveCache_index E paths key x) = Inr 1"
    by (rule saveCache_index_ok [OF h res])
  show "snd (saveCache_part000 E paths key x) = Inr 1"
    by (rule saveCache_part000_ok [OF h res])
  show "\<not> isl (snd (restoreCache_index E paths key None x))"
    by (rule restoreCache_index_ok [OF h val])
  show "\<not> isl (snd (restoreCache_part000 E paths key None x))"
    by (rule restoreCache_part000_ok [OF h val])
qed

text \<open>
  The theorem at the key \<^verbatim>\<open>a,b\<close>, which is refused, and at a key of 512 characters, which
  both functions accept.
\<close>

theorem checkKey_raises_iff_witness:
  "checkKey ''a,b'' = Inl (ValidationError ''Key Validation Error: a,b cannot contain commas.'')
   \<and> thrown_name (ValidationError ''Key Validation Error: a,b cannot contain commas.'')
       = Some ''ValidationError''
   \<and> length (replicate 512 (CHR ''k'')) \<le> 512
   \<and> CHR '','' \<notin> set (replicate 512 (CHR ''k''))
   \<and> [''target''] \<noteq> []
   \<and> helpers_succeed quiet_env
   \<and> resolvePaths quiet_env [''target''] = Inr [''target'']
   \<and> snd (saveCache_index quiet_env [''target''] (replicate 512 (CHR ''k'')) False) = Inr 1
   \<and> snd (saveCache_part000 quiet_env [''target''] (replicate 512 (CHR ''k'')) False) = Inr 1
   \<and> \<not> isl (snd (restoreCache_index quiet_env [''target''] (replicate 512 (CHR ''k'')) None False))
   \<and> \<not> isl (snd (restoreCache_part000 quiet_env [''target''] (replicate 512 (CHR ''k'')) None False))"
proof -
  have c: "checkKey ''a,b''
             = Inl (ValidationError ''Key Validation Error: a,b cannot contain commas.'')"
    by (simp add: checkKey_def)
  have h: "helpers_succeed quiet_env"
    by (rule helpers_succeed_quiet)
  have r: "resolvePaths quiet_env [''target''] = Inr [''target'']"
    by (simp add: quiet_env_def)
  have k: "length (replicate 512 (CHR ''k'')) \<le> 512
             \<and> CHR '','' \<notin> set (replicate 512 (CHR ''k''))"
    by simp
  from checkKey_raises_iff [of "''a,b''" "[''target'']" quiet_env "[''target'']" False] c
  have 1: "thrown_name (ValidationError ''Key Validation Error: a,b cannot contain commas.'')
             = Some ''ValidationError''"
    by blast
  from checkKey_raises_iff [of "replicate 512 (CHR ''k'')" "[''target'']" quiet_env
      "[''target'']" False] h r k
  have 2: "snd (saveCache_index quiet_env [''target''] (replicate 512 (CHR ''k'')) False) = Inr 1
   \<and> snd (saveCache_part000 quiet_env [''target''] (replicate 512 (CHR ''k'')) False) = Inr 1
   \<and> \<not> isl (snd (restoreCache_index quiet_env [''target''] (replicate 512 (CHR ''k'')) None False))
   \<and> \<not> isl (snd (restoreCache_part000 quiet_env [''target''] (replicate 512 (CHR ''k'')) None False))"
    by blast
  from c 1 2 h r k show ?thesis by blast
qed

section \<open>Claims about the lookup\<close>

text \<open>
  C1, as amended. For a key whose directory lists at least one child, the lookup selects a
  single entry that depends on nothing but the key and the environment.
  \<^verbatim>\<open>getRestoreKey\<close> does not sort: it returns the key itself, and its
  reports and result are the same whatever the modification times are.
  \<^verbatim>\<open>getCacheEntry\<close>, when the modification times of the children can be read, returns
  one of the children of that directory, with the directory as its location.
\<close>

theorem lookup_selection:
  "(lists_children E (restoreDir_part000 E paths c x k) \<longrightarrow>
      snd (getRestoreKey E (k # keys) paths c x) = Inr (Some k))
   \<and> getRestoreKey (E\<lparr>statSync := st\<rparr>) (k # keys) paths c x = getRestoreKey E (k # keys) paths c x
   \<and> (lists_children E (restoreDir_index E paths c x k)
        \<and> times_readable E (restoreDir_index E paths c x k) \<longrightarrow>
      (\<exists>child\<in>set (children E (restoreDir_index E paths c x k)).
         snd (getCacheEntry E (k # keys) paths c x) =
           Inr (Some \<lparr>cacheKey = child, archiveLocation = restoreDir_index E paths c x k\<rparr>)))"
proof (intro conjI impI)
  assume "lists_children E (restoreDir_part000 E paths c x k)"
  then have "hit_part000 E paths c x k" by (simp add: hit_part000_def)
  from getRestoreKey_hit [OF this, of keys]
  show "snd (getRestoreKey E (k # keys) paths c x) = Inr (Some k)" by simp
next
  show "getRestoreKey (E\<lparr>statSync := st\<rparr>) (k # keys) paths c x = getRestoreKey E (k # keys) paths c x"
    by (rule getRestoreKey_ignores_times)
next
  assume "lists_children E (restoreDir_index E paths c x k)
        \<and> times_readable E (restoreDir_index E paths c x k)"
  then have "hit_index E paths c x k" by (simp add: hit_index_def)
  from getCacheEntry_hit [OF this, of keys]
  show "\<exists>child\<in>set (children E (restoreDir_index E paths c x k)).
         snd (getCacheEntry E (k # keys) paths c x) =
           Inr (Some \<lparr>cacheKey = child, archiveLocation = restoreDir_index E paths c x k\<rparr>)"
    by auto
qed

text \<open>The theorem on a directory with two children.\<close>

theorem lookup_selection_witness:
  "lists_children two_children_env (restoreDir_part000 two_children_env [''target''] Gzip False ''k1'')
   \<and> snd (getRestoreKey two_children_env [''k1'', ''k2''] [''target''] Gzip False) = Inr (Some ''k1'')
   \<and> lists_children two_children_env (restoreDir_index two_children_env [''target''] Gzip False ''k1'')
   \<and> times_readable two_children_env (restoreDir_index two_children_env [''target''] Gzip False ''k1'')
   \<and> (\<exists>child\<in>set (children two_children_env
                      (restoreDir_index two_children_env [''target''] Gzip False ''k1'')).
         snd (getCacheEntry two_children_env [''k1'', ''k2''] [''target''] Gzip False) =
           Inr (Some \<lparr>cacheKey = child,
                      archiveLocation =
                        restoreDir_index two_children_env [''target''] Gzip False ''k1''\<rparr>))"
proof -
  have 1: "lists_children two_children_env
             (restoreDir_part000 two_children_env [''target''] Gzip False ''k1'')"
    by (simp add: two_children_env_def env_eval)
  have 2: "lists_children two_children_env
             (restoreDir_index two_children_env [''target''] Gzip False ''k1'')"
    by (simp add: two_children_env_def env_eval)
  have 3: "times_readable two_children_env
             (restoreDir_index two_children_env [''target''] Gzip False ''k1'')"
    by (simp add: two_children_env_def env_eval)
  show ?thesis
    using 1 2 3
      lookup_selection [of two_children_env "[''target'']" Gzip False "''k1''" "[''k2'']"]
    by blast
qed

text \<open>
  C1 as stated fails on that directory: the child \<^verbatim>\<open>new\<close> is the most recently modified
  one, \<^verbatim>\<open>getCacheEntry\<close> selects the child \<^verbatim>\<open>old\<close>, and \<^verbatim>\<open>getRestoreKey\<close>
  selects no child but the key \<^verbatim>\<open>k1\<close>.
\<close>

theorem lookup_selection_counterexample:
  "children two_children_env (restoreDir_index two_children_env [''target''] Gzip False ''k1'')
     = [''old'', ''new'']
   \<and> children two_children_env (restoreDir_part000 two_children_env [''target''] Gzip False ''k1'')
     = [''old'', ''new'']
   \<and> statSync two_children_env
        (array_join ''/'' [restoreDir_index two_children_env [''target''] Gzip False ''k1'', ''old''])
      = Some 1000
   \<and> statSync two_children_env
        (array_join ''/'' [restoreDir_index two_children_env [''target''] Gzip False ''k1'', ''new''])
      = Some 2000
   \<and> snd (getCacheEntry two_children_env [''k1''] [''target''] Gzip False)
      = Inr (Some \<lparr>cacheKey = ''old'',
                    archiveLocation =
                      ''/var/local/inf_runner_cache/cache/o/r/target|gzip|1.0/k1''\<rparr>)
   \<and> snd (getRestoreKey two_children_env [''k1''] [''target''] Gzip False) = Inr (Some ''k1'')"
  by (simp add: two_children_env_def env_eval io_simps snd_io_bind)


text \<open>
  C3, as amended. The lookup goes through the keys in the order given and returns at the
  first key that is a hit; the keys after it are not consulted, since reports and result are
  those of the list cut after that key. For \<^verbatim>\<open>getRestoreKey\<close> a key is a hit when the
  listing of its directory succeeds with at least one child. For \<^verbatim>\<open>getCacheEntry\<close> it
  is a hit when, moreover, the modification times of the children can be read where there
  are two or more. A failed listing, an empty listing and, in \<^verbatim>\<open>getCacheEntry\<close>, a
  failed read of a modification time are a miss for that key only: the loop goes on and never
  throws. When no key is a hit the lookup returns none.
\<close>

theorem lookup_first_hit:
  "((\<forall>k'\<in>set before. \<not> hit_part000 E paths c x k') \<and> hit_part000 E paths c x k \<longrightarrow>
      snd (getRestoreKey E (before @ k # after) paths c x) = Inr (Some k)
      \<and> getRestoreKey E (before @ k # after) paths c x = getRestoreKey E (before @ [k]) paths c x)
   \<and> ((\<forall>k'\<in>set before. \<not> hit_index E paths c x k') \<and> hit_index E paths c x k \<longrightarrow>
      (\<exists>child\<in>set (children E (restoreDir_index E paths c x k)).
         snd (getCacheEntry E (before @ k # after) paths c x) =
           Inr (Some \<lparr>cacheKey = child, archiveLocation = restoreDir_index E paths c x k\<rparr>))
      \<and> getCacheEntry E (before @ k # after) paths c x = getCacheEntry E (before @ [k]) paths c x)
   \<and> ((\<forall>k'\<in>set keys. \<not> hit_part000 E paths c x k') \<longrightarrow>
      snd (getRestoreKey E keys paths c x) = Inr None)
   \<and> ((\<forall>k'\<in>set keys. \<not> hit_index E paths c x k') \<longrightarrow>
      snd (getCacheEntry E keys paths c x) = Inr None)
   \<and> \<not> isl (snd (getRestoreKey E keys paths c x))
   \<and> \<not> isl (snd (getCacheEntry E keys paths c x))"
proof (intro conjI impI)
  assume a: "(\<forall>k'\<in>set before. \<not> hit_part000 E paths c x k') \<and> hit_part000 E paths c x k"
  then show "snd (getRestoreKey E (before @ k # after) paths c x) = Inr (Some k)"
    by (intro getRestoreKey_first_hit) auto
  from a show "getRestoreKey E (before @ k # after) paths c x
                 = getRestoreKey E (before @ [k]) paths c x"
    by (intro getRestoreKey_tail) auto
next
  assume a: "(\<forall>k'\<in>set before. \<not> hit_index E paths c x k') \<and> hit_index E paths c x k"
  then show "\<exists>child\<in>set (children E (restoreDir_index E paths c x k)).
         snd (getCacheEntry E (before @ k # after) paths c x) =
           Inr (Some \<lparr>cacheKey = child, archiveLocation = restoreDir_index E paths c x k\<rparr>)"
    by (intro getCacheEntry_first_hit) auto
  from a show "getCacheEntry E (before @ k # after) paths c x
                 = getCacheEntry E (before @ [k]) paths c x"
    by (intro getCacheEntry_tail) auto
next
  assume "\<forall>k'\<in>set keys. \<not> hit_part000 E paths c x k'"
  then show "snd (getRestoreKey E keys paths c x) = Inr None"
    by (rule getRestoreKey_all_miss)
next
  assume "\<forall>k'\<in>set keys. \<not> hit_index E paths c x k'"
  then show "snd (getCacheEntry E keys paths c x) = Inr None"
    by (rule getCacheEntry_all_miss)
next
  show "\<not> isl (snd (getRestoreKey E keys paths c x))"
    using getRestoreKey_returns [of E keys paths c x] by auto
  show "\<not> isl (snd (getCacheEntry E keys paths c x))"
    using getCacheEntry_returns [of E keys paths c x] by auto
qed

text \<open>The theorem on the keys \<^verbatim>\<open>k0\<close> (no directory), \<^verbatim>\<open>k1\<close> (two children), \<^verbatim>\<open>k2\<close>.\<close>

theorem lookup_first_hit_witness:
  "\<not> hit_part000 two_children_env [''target''] Gzip False ''k0''
   \<and> hit_part000 two_children_env [''target''] Gzip False ''k1''
   \<and> snd (getRestoreKey two_children_env ([''k0''] @ ''k1'' # [''k2'']) [''target''] Gzip False)
       = Inr (Some ''k1'')
   \<and> getRestoreKey two_children_env ([''k0''] @ ''k1'' # [''k2'']) [''target''] Gzip False
       = getRestoreKey two_children_env ([''k0''] @ [''k1'']) [''target''] Gzip False
   \<and> \<not> hit_index two_children_env [''target''] Gzip False ''k0''
   \<and> hit_index two_children_env [''target''] Gzip False ''k1''
   \<and> (\<exists>child\<in>set (children two_children_env
                      (restoreDir_index two_children_env [''target''] Gzip False ''k1'')).
         snd (getCacheEntry two_children_env ([''k0''] @ ''k1'' # [''k2'']) [''target''] Gzip False) =
           Inr (Some \<lparr>cacheKey = child,
                      archiveLocation =
                        restoreDir_index two_children_env [''target''] Gzip False ''k1''\<rparr>))
   \<and> getCacheEntry two_children_env ([''k0''] @ ''k1'' # [''k2'']) [''target''] Gzip False
       = getCacheEntry two_children_env ([''k0''] @ [''k1'']) [''target''] Gzip False
   \<and> snd (getRestoreKey two_children_env [''k0''] [''target''] Gzip False) = Inr None
   \<and> snd (getCacheEntry two_children_env [''k0''] [''target''] Gzip False) = Inr None"
proof -
  have 1: "\<not> hit_part000 two_children_env [''target''] Gzip False ''k0''"
    by (simp add: two_children_env_def env_eval)
  have 2: "hit_part000 two_children_env [''target''] Gzip False ''k1''"
    by (simp add: two_children_env_def env_eval)
  have 3: "\<not> hit_index two_children_env [''target''] Gzip False ''k0''"
    by (simp add: two_children_env_def env_eval)
  have 4: "hit_index two_children_env [''target''] Gzip False ''k1''"
    by (simp add: two_children_env_def env_eval)
  have 5: "\<forall>k'\<in>set [''k0'']. \<not> hit_part000 two_children_env [''target''] Gzip False k'"
    using 1 by simp
  have 6: "\<forall>k'\<in>set [''k0'']. \<not> hit_index two_children_env [''target''] Gzip False k'"
    using 3 by simp
  show ?thesis
    using 1 2 3 4 5 6
      lookup_first_hit [of "[''k0'']" two_children_env "[''target'']" Gzip False "''k1''"
        "[''k2'']" "[''k0'']"]
    by blast
qed

text \<open>
  C3 as stated fails for \<^verbatim>\<open>getCacheEntry\<close>: the listing of the directory of \<^verbatim>\<open>k1\<close>
  yields two children, yet the lookup goes on to \<^verbatim>\<open>k2\<close> and returns its entry, because
  the children of \<^verbatim>\<open>k1\<close> cannot be read and the sort throws inside the \<^verbatim>\<open>try\<close> block.
\<close>

theorem lookup_first_hit_counterexample:
  "lists_children unreadable_children_env
     (restoreDir_index unreadable_children_env [''target''] Gzip False ''k1'')
   \<and> snd (getCacheEntry unreadable_children_env [''k1'', ''k2''] [''target''] Gzip False)
      = Inr (Some \<lparr>cacheKey = ''c'',
                    archiveLocation =
                      restoreDir_index unreadable_children_env [''target''] Gzip False ''k2''\<rparr>)
   \<and> restoreDir_index unreadable_children_env [''target''] Gzip False ''k2''
      \<noteq> restoreDir_index unreadable_children_env [''target''] Gzip False ''k1''"
  by (simp add: unreadable_children_env_def env_eval io_simps snd_io_bind)


section \<open>Claims about restoring\<close>

text \<open>
  C2 says that a restore that succeeds returns the matched key, an element of the combined
  key list. The second variant does (lemma \<open>restoreCache_part000_returns_key\<close>);
  \<^verbatim>\<open>restoreCache\<close> of \<^verbatim>\<open>src/fsCache/index.ts\<close> returns the name of the child it
  selected (lemma \<open>restoreCache_index_returns_a_child\<close>). With the archive of the key
  \<^verbatim>\<open>k1\<close> stored in the folder of that key and every helper succeeding, the call with the
  primary key \<^verbatim>\<open>k1\<close> returns \<^verbatim>\<open>cache.tgz\<close>, which is not one of the keys it was given.
\<close>

theorem restoreCache_index_returns_child:
  "snd (restoreCache_index one_archive_env [''target''] ''k1'' None False) = Inr (Some ''cache.tgz'')
   \<and> ''cache.tgz'' \<notin> set (combined_keys ''k1'' None)"
  by (simp add: one_archive_env_def env_eval io_simps snd_io_bind snd_try_catch
      restoreCache_index_def restoreCache_validate_def restoreCache_try_index_def
      restoreCache_catch_def checkPaths_def checkKey_def Let_def)

text \<open>
  C6. With a non-empty path list, at most 10 keys in the combined list and every key within
  512 characters and free of commas, \<^verbatim>\<open>restoreCache\<close> returns \<^verbatim>\<open>undefined\<close> and does
  not throw when no key has a directory that lists a child; in particular when no directory
  can be listed at all, as when the backend root does not exist. Both variants.
\<close>

theorem restoreCache_graceful_miss:
  assumes "paths \<noteq> []"
    and "length (combined_keys primaryKey restoreKeys) \<le> 10"
    and "\<forall>k\<in>set (combined_keys primaryKey restoreKeys). length k \<le> 512 \<and> CHR '','' \<notin> set k"
  shows "((\<forall>k\<in>set (combined_keys primaryKey restoreKeys).
             \<not> lists_children E (restoreDir_index E paths (getCompressionMethod E) x k)) \<longrightarrow>
          snd (restoreCache_index E paths primaryKey restoreKeys x) = Inr None)
       \<and> ((\<forall>k\<in>set (combined_keys primaryKey restoreKeys).
             \<not> lists_children E (restoreDir_part000 E paths (getCompressionMethod E) x k)) \<longrightarrow>
          snd (restoreCache_part000 E paths primaryKey restoreKeys x) = Inr None)
       \<and> ((\<forall>d. readdir E d = None) \<longrightarrow>
          snd (restoreCache_index E paths primaryKey restoreKeys x) = Inr None
          \<and> snd (restoreCache_part000 E paths primaryKey restoreKeys x) = Inr None)"
proof -
  note val = restoreCache_validate_ok [OF assms]
  have i: "snd (restoreCache_index E paths primaryKey restoreKeys x) = Inr None"
    if "\<forall>k\<in>set (combined_keys primaryKey restoreKeys).
             \<not> lists_children E (restoreDir_index E paths (getCompressionMethod E) x k)"
    using that by (intro restoreCache_index_miss [OF val]) (simp add: hit_index_def)
  have p: "snd (restoreCache_part000 E paths primaryKey restoreKeys x) = Inr None"
    if "\<forall>k\<in>set (combined_keys primaryKey restoreKeys).
             \<not> lists_children E (restoreDir_part000 E paths (getCompressionMethod E) x k)"
    using that by (intro restoreCache_part000_miss [OF val]) (simp add: hit_part000_def)
  have n: "\<not> lists_children E d" if "\<forall>d. readdir E d = None" for d
    using that by (simp add: lists_children_def)
  from i p n show ?thesis by blast
qed

text \<open>The theorem on a runner without a backend root.\<close>

theorem restoreCache_graceful_miss_witness:
  "[''target''] \<noteq> []
   \<and> length (combined_keys ''k1'' (Some [''k0''])) \<le> 10
   \<and> list_all (\<lambda>k. length k \<le> 512 \<and> CHR '','' \<notin> set k) (combined_keys ''k1'' (Some [''k0'']))
   \<and> readdir quiet_env = (\<lambda>d. None)
   \<and> snd (restoreCache_index quiet_env [''target''] ''k1'' (Some [''k0'']) False) = Inr None
   \<and> snd (restoreCache_part000 quiet_env [''target''] ''k1'' (Some [''k0'']) False) = Inr None"
proof -
  have 1: "[''target''] \<noteq> ([] :: string list)" by simp
  have 2: "length (combined_keys ''k1'' (Some [''k0''])) \<le> 10"
    by (simp add: combined_keys_def)
  have 3: "\<forall>k\<in>set (combined_keys ''k1'' (Some [''k0''])). length k \<le> 512 \<and> CHR '','' \<notin> set k"
    by (simp add: combined_keys_def)
  have 4: "readdir quiet_env = (\<lambda>d. None)"
    by (simp add: quiet_env_def)
  then have 5: "\<forall>d. readdir quiet_env d = None" by simp
  from restoreCache_graceful_miss [OF 1 2 3, of quiet_env False] 5
  have "snd (restoreCache_index quiet_env [''target''] ''k1'' (Some [''k0'']) False) = Inr None
   \<and> snd (restoreCache_part000 quiet_env [''target''] ''k1'' (Some [''k0'']) False) = Inr None"
    by blast
  with 1 2 3 4 show ?thesis by (simp add: list_all_iff)
qed

section \<open>Claims about saving\<close>

text \<open>
  C7. When the path list and the key pass validation and the patterns resolve to no path,
  \<^verbatim>\<open>saveCache\<close> throws an \<^verbatim>\<open>Error\<close> to its caller: the outcome is that error and not
  the value \<open>-1\<close>, and its name is \<^verbatim>\<open>Error\<close>, not \<^verbatim>\<open>ValidationError\<close>. Both variants.
\<close>

theorem saveCache_nothing_resolved:
  assumes "paths \<noteq> []" and "length key \<le> 512" and "CHR '','' \<notin> set key"
    and "resolvePaths E paths = Inr []"
  shows "snd (saveCache_index E paths key x) = Inl nothing_to_save
       \<and> snd (saveCache_part000 E paths key x) = Inl nothing_to_save
       \<and> thrown_name nothing_to_save = Some ''Error''
       \<and> \<not> raises_ValidationError (saveCache_index E paths key x)
       \<and> \<not> raises_ValidationError (saveCache_part000 E paths key x)"
proof -
  have r: "snd (saveCache_resolve E paths key) = Inl nothing_to_save"
    using assms
    by (simp add: saveCache_resolve_def snd_io_bind io_simps checkPaths_def checkKey_def
        list_all_iff)
  have n: "thrown_name nothing_to_save = Some ''Error''"
    by (simp add: nothing_to_save_def Error_def)
  from r have "snd (saveCache_index E paths key x) = Inl nothing_to_save"
    and "snd (saveCache_part000 E paths key x) = Inl nothing_to_save"
    by (simp_all add: saveCache_index_def saveCache_part000_def snd_io_bind)
  with n show ?thesis by (simp add: raises_ValidationError_def)
qed

text \<open>The theorem on a runner where nothing resolves.\<close>

theorem saveCache_nothing_resolved_witness:
  "[''target''] \<noteq> []
   \<and> length ''k1'' \<le> 512
   \<and> CHR '','' \<notin> set ''k1''
   \<and> resolvePaths nothing_resolves_env [''target''] = Inr []
   \<and> snd (saveCache_index nothing_resolves_env [''target''] ''k1'' False) = Inl nothing_to_save
   \<and> snd (saveCache_part000 nothing_resolves_env [''target''] ''k1'' False) = Inl nothing_to_save
   \<and> thrown_name nothing_to_save = Some ''Error''
   \<and> \<not> raises_ValidationError (saveCache_index nothing_resolves_env [''target''] ''k1'' False)
   \<and> \<not> raises_ValidationError (saveCache_part000 nothing_resolves_env [''target''] ''k1'' False)"
proof -
  have 1: "[''target''] \<noteq> ([] :: string list)" by simp
  have 2: "length ''k1'' \<le> 512" by simp
  have 3: "CHR '','' \<notin> set ''k1''" by simp
  have 4: "resolvePaths nothing_resolves_env [''target''] = Inr []"
    by (simp add: nothing_resolves_env_def quiet_env_def)
  from saveCache_nothing_resolved [OF 1 2 3 4, of False] 1 2 3 4 show ?thesis by blast
qed

text \<open>
  C5, as amended. Let validation and path resolution have succeeded and the directory have
  been created. If a step of the \<^verbatim>\<open>try\<close> block of \<^verbatim>\<open>saveCache\<close> (creating the
  archive, listing it under debug, reading its size) throws a value \<open>e\<close>, then: when the
  name of \<open>e\<close> is \<^verbatim>\<open>ValidationError\<close>, \<^verbatim>\<open>saveCache\<close> throws \<open>e\<close>; otherwise it
  returns \<open>-1\<close> and has reported \<^verbatim>\<open>Failed to save\<close> with the message of \<open>e\<close>, as an
  info when the name of \<open>e\<close> is \<^verbatim>\<open>ReserveCacheError\<close> and as a warning otherwise. A
  failure of the archive codec to create the archive is such a step, and so are a failure
  to list the archive under debug and a failure to read its size. What creating the
  directory throws, after path resolution and before the \<^verbatim>\<open>try\<close> block, reaches the
  caller. Both variants.
\<close>

theorem saveCache_guarded_failure:
  assumes "snd (saveCache_resolve E paths key) = Inr cachePaths"
  shows
    "(mkdir E (cacheDir_index E) = None
      \<and> snd (saveCache_try E (archiveFolder_index E paths key x)
               (archivePath_in E (archiveFolder_index E paths key x)) cachePaths
               (getCompressionMethod E)) = Inl e \<longrightarrow>
        (thrown_name e = Some ''ValidationError'' \<longrightarrow>
           snd (saveCache_index E paths key x) = Inl e)
        \<and> (thrown_name e \<noteq> Some ''ValidationError'' \<longrightarrow>
           snd (saveCache_index E paths key x) = Inr (- 1)
           \<and> (if thrown_name e = Some ''ReserveCacheError''
               then Info (Str (''Failed to save: '' @ render_undefined (thrown_message e)))
               else Warning (Str (''Failed to save: '' @ render_undefined (thrown_message e))))
              \<in> set (fst (saveCache_index E paths key x))))
     \<and> (mkdir E (archiveFolder_part000 E paths key x) = None
      \<and> snd (saveCache_try E (archiveFolder_part000 E paths key x)
               (archivePath_in E (archiveFolder_part000 E paths key x)) cachePaths
               (getCompressionMethod E)) = Inl e \<longrightarrow>
        (thrown_name e = Some ''ValidationError'' \<longrightarrow>
           snd (saveCache_part000 E paths key x) = Inl e)
        \<and> (thrown_name e \<noteq> Some ''ValidationError'' \<longrightarrow>
           snd (saveCache_part000 E paths key x) = Inr (- 1)
           \<and> (if thrown_name e = Some ''ReserveCacheError''
               then Info (Str (''Failed to save: '' @ render_undefined (thrown_message e)))
               else Warning (Str (''Failed to save: '' @ render_undefined (thrown_message e))))
              \<in> set (fst (saveCache_part000 E paths key x))))
     \<and> (createTar E folder cachePaths c = Some e \<longrightarrow>
        snd (saveCache_try E folder path cachePaths c) = Inl e)
     \<and> (createTar E folder cachePaths c = None \<and> isDebug E \<and> listTar E path c = Some e \<longrightarrow>
        snd (saveCache_try E folder path cachePaths c) = Inl e)
     \<and> (createTar E folder cachePaths c = None \<and> (isDebug E \<longrightarrow> listTar E path c = None)
        \<and> getArchiveFileSizeInBytes E path = Inl e \<longrightarrow>
        snd (saveCache_try E folder path cachePaths c) = Inl e)
     \<and> (mkdir E (cacheDir_index E) = Some e \<longrightarrow>
        snd (saveCache_index E paths key x) = Inl e)
     \<and> (mkdir E (archiveFolder_part000 E paths key x) = Some e \<longrightarrow>
        snd (saveCache_part000 E paths key x) = Inl e)"
proof (intro conjI impI)
  assume a: "mkdir E (cacheDir_index E) = None
      \<and> snd (saveCache_try E (archiveFolder_index E paths key x)
               (archivePath_in E (archiveFolder_index E paths key x)) cachePaths
               (getCompressionMethod E)) = Inl e"
  then have m: "mkdir E (cacheDir_index E) = None"
    and t: "snd (saveCache_try E (archiveFolder_index E paths key x)
               (archivePath_in E (archiveFolder_index E paths key x)) cachePaths
               (getCompressionMethod E)) = Inl e"
    by simp_all
  note out = saveCache_index_guarded(1) [OF assms m t]
  note rep = saveCache_index_guarded(2) [OF assms m t]
  show "snd (saveCache_index E paths key x) = Inl e" if "thrown_name e = Some ''ValidationError''"
    using that out by simp
  show "snd (saveCache_index E paths key x) = Inr (- 1)"
    if "thrown_name e \<noteq> Some ''ValidationError''"
    using that out by simp
  show "(if thrown_name e = Some ''ReserveCacheError''
               then Info (Str (''Failed to save: '' @ render_undefined (thrown_message e)))
               else Warning (Str (''Failed to save: '' @ render_undefined (thrown_message e))))
              \<in> set (fst (saveCache_index E paths key x))"
    if "thrown_name e \<noteq> Some ''ValidationError''"
    using that rep by (auto simp: saveCache_catch_reports split: if_splits)
next
  assume a: "mkdir E (archiveFolder_part000 E paths key x) = None
      \<and> snd (saveCache_try E (archiveFolder_part000 E paths key x)
               (archivePath_in E (archiveFolder_part000 E paths key x)) cachePaths
               (getCompressionMethod E)) = Inl e"
  then have m: "mkdir E (archiveFolder_part000 E paths key x) = None"
    and t: "snd (saveCache_try E (archiveFolder_part000 E paths key x)
               (archivePath_in E (archiveFolder_part000 E paths key x)) cachePaths
               (getCompressionMethod E)) = Inl e"
    by simp_all
  note out = saveCache_part000_guarded(1) [OF assms m t]
  note rep = saveCache_part000_guarded(2) [OF assms m t]
  show "snd (saveCache_part000 E paths key x) = Inl e" if "thrown_name e = Some ''ValidationError''"
    using that out by simp
  show "snd (saveCache_part000 E paths key x) = Inr (- 1)"
    if "thrown_name e \<noteq> Some ''ValidationError''"
    using that out by simp
  show "(if thrown_name e = Some ''ReserveCacheError''
               then Info (Str (''Failed to save: '' @ render_undefined (thrown_message e)))
               else Warning (Str (''Failed to save: '' @ render_undefined (thrown_message e))))
              \<in> set (fst (saveCache_part000 E paths key x))"
    if "thrown_name e \<noteq> Some ''ValidationError''"
    using that rep by (auto simp: saveCache_catch_reports split: if_splits)
next
  assume "createTar E folder cachePaths c = Some e"
  then show "snd (saveCache_try E folder path cachePaths c) = Inl e"
    by (rule saveCache_try_createTar)
next
  assume "createTar E folder cachePaths c = None \<and> isDebug E \<and> listTar E path c = Some e"
  then show "snd (saveCache_try E folder path cachePaths c) = Inl e"
    by (intro saveCache_try_listTar) simp_all
next
  assume "createTar E folder cachePaths c = None \<and> (isDebug E \<longrightarrow> listTar E path c = None)
        \<and> getArchiveFileSizeInBytes E path = Inl e"
  then show "snd (saveCache_try E folder path cachePaths c) = Inl e"
    by (intro saveCache_try_size) auto
next
  assume "mkdir E (cacheDir_index E) = Some e"
  with assms show "snd (saveCache_index E paths key x) = Inl e"
    by (simp add: saveCache_index_def snd_io_bind io_simps Let_def)
next
  assume "mkdir E (archiveFolder_part000 E paths key x) = Some e"
  with assms show "snd (saveCache_part000 E paths key x) = Inl e"
    by (simp add: saveCache_part000_def snd_io_bind io_simps Let_def)
qed

text \<open>The theorem on a runner where the archive codec fails.\<close>

theorem saveCache_guarded_failure_witness:
  "snd (saveCache_resolve tar_fails_env [''target''] ''k1'') = Inr [''target'']
   \<and> mkdir tar_fails_env (cacheDir_index tar_fails_env) = None
   \<and> mkdir tar_fails_env (archiveFolder_part000 tar_fails_env [''target''] ''k1'' False) = None
   \<and> createTar tar_fails_env (archiveFolder_index tar_fails_env [''target''] ''k1'' False)
        [''target''] Gzip = Some (Error ''tar exited with code 2'')
   \<and> thrown_name (Error ''tar exited with code 2'') \<noteq> Some ''ValidationError''
   \<and> snd (saveCache_index tar_fails_env [''target''] ''k1'' False) = Inr (- 1)
   \<and> Warning (Str ''Failed to save: tar exited with code 2'')
        \<in> set (fst (saveCache_index tar_fails_env [''target''] ''k1'' False))
   \<and> snd (saveCache_part000 tar_fails_env [''target''] ''k1'' False) = Inr (- 1)
   \<and> Warning (Str ''Failed to save: tar exited with code 2'')
        \<in> set (fst (saveCache_part000 tar_fails_env [''target''] ''k1'' False))"
proof -
  let ?e = "Error ''tar exited with code 2''"
  have r: "snd (saveCache_resolve tar_fails_env [''target''] ''k1'') = Inr [''target'']"
    by (simp add: tar_fails_env_def quiet_env_def saveCache_resolve_def snd_io_bind io_simps
        checkPaths_def checkKey_def)
  have m1: "mkdir tar_fails_env (cacheDir_index tar_fails_env) = None"
    and m2: "mkdir tar_fails_env (archiveFolder_part000 tar_fails_env [''target''] ''k1'' False)
               = None"
    by (simp_all add: tar_fails_env_def quiet_env_def)
  have c: "createTar tar_fails_env folder [''target''] Gzip = Some ?e" for folder
    by (simp add: tar_fails_env_def quiet_env_def)
  have g: "getCompressionMethod tar_fails_env = Gzip"
    by (simp add: tar_fails_env_def quiet_env_def)
  have t: "snd (saveCache_try tar_fails_env folder path [''target'']
                 (getCompressionMethod tar_fails_env)) = Inl ?e" for folder path
    using c by (simp add: g saveCache_try_def snd_io_bind io_simps)
  have n: "thrown_name ?e \<noteq> Some ''ValidationError''"
    and n': "thrown_name ?e \<noteq> Some ''ReserveCacheError''"
    and msg: "render_undefined (thrown_message ?e) = ''tar exited with code 2''"
    by (simp_all add: Error_def render_undefined_def)
  from saveCache_guarded_failure [OF r, of False ?e] m1 m2 t n n' msg
  have "snd (saveCache_index tar_fails_env [''target''] ''k1'' False) = Inr (- 1)
   \<and> Warning (Str ''Failed to save: tar exited with code 2'')
        \<in> set (fst (saveCache_index tar_fails_env [''target''] ''k1'' False))
   \<and> snd (saveCache_part000 tar_fails_env [''target''] ''k1'' False) = Inr (- 1)
   \<and> Warning (Str ''Failed to save: tar exited with code 2'')
        \<in> set (fst (saveCache_part000 tar_fails_env [''target''] ''k1'' False))"
    by simp
  with r m1 m2 c n show ?thesis by blast
qed

text \<open>
  C5 as stated fails: creating the directory is a step after path resolution and outside
  the \<^verbatim>\<open>try\<close> block. When it throws an \<^verbatim>\<open>Error\<close>, \<^verbatim>\<open>saveCache\<close> throws that error
  to its caller instead of returning \<open>-1\<close>.
\<close>

theorem saveCache_guarded_failure_counterexample:
  "snd (saveCache_resolve mkdir_refused_env [''target''] ''k1'') = Inr [''target'']
   \<and> thrown_name (Error ''EACCES: permission denied, mkdir'') \<noteq> Some ''ValidationError''
   \<and> snd (saveCache_index mkdir_refused_env [''target''] ''k1'' False)
       = Inl (Error ''EACCES: permission denied, mkdir'')
   \<and> snd (saveCache_part000 mkdir_refused_env [''target''] ''k1'' False)
       = Inl (Error ''EACCES: permission denied, mkdir'')"
  by (simp add: mkdir_refused_env_def quiet_env_def saveCache_index_def saveCache_part000_def
      saveCache_resolve_def snd_io_bind io_simps checkPaths_def checkKey_def Error_def Let_def)


section \<open>Claims about the fingerprint\<close>

text \<open>
  C8, as amended. The string that \<^verbatim>\<open>getCacheVersion\<close> hashes changes when one path of
  the list is replaced by a different one, when the compression method changes (also between
  absent and present), and when the paths are reordered into a different list, provided no
  path contains the separator \<^verbatim>\<open>|\<close>. Where the digest is injective, two fingerprints are
  equal exactly when the hashed strings are, so the fingerprint changes in each of these
  cases.
\<close>

theorem fingerprint_sensitive:
  "(i < length paths \<and> p \<noteq> paths ! i \<longrightarrow>
      array_join ''|'' (components E (paths[i := p]) c x)
        \<noteq> array_join ''|'' (components E paths c x))
   \<and> (c \<noteq> c' \<longrightarrow>
      array_join ''|'' (components E paths c x) \<noteq> array_join ''|'' (components E paths c' x))
   \<and> (mset paths' = mset paths \<and> paths' \<noteq> paths \<and> (\<forall>q\<in>set paths. CHR ''|'' \<notin> set q) \<longrightarrow>
      array_join ''|'' (components E paths' c x) \<noteq> array_join ''|'' (components E paths c x))
   \<and> (inj (sha256_hex E) \<longrightarrow>
      (getCacheVersion E paths c x = getCacheVersion E pathsB cB xB \<longleftrightarrow>
       array_join ''|'' (components E paths c x) = array_join ''|'' (components E pathsB cB xB)))"
proof (intro conjI impI)
  assume "i < length paths \<and> p \<noteq> paths ! i"
  then show "array_join ''|'' (components E (paths[i := p]) c x)
        \<noteq> array_join ''|'' (components E paths c x)"
    by (intro joined_change_path) auto
next
  assume "c \<noteq> c'"
  then show "array_join ''|'' (components E paths c x) \<noteq> array_join ''|'' (components E paths c' x)"
    by (rule joined_change_compression)
next
  assume a: "mset paths' = mset paths \<and> paths' \<noteq> paths \<and> (\<forall>q\<in>set paths. CHR ''|'' \<notin> set q)"
  then have "set paths' = set paths" by (metis set_mset_mset)
  with a show "array_join ''|'' (components E paths' c x) \<noteq> array_join ''|'' (components E paths c x)"
    by (intro joined_change_paths) auto
next
  assume "inj (sha256_hex E)"
  then show "getCacheVersion E paths c x = getCacheVersion E pathsB cB xB \<longleftrightarrow>
       array_join ''|'' (components E paths c x) = array_join ''|'' (components E pathsB cB xB)"
    by (rule getCacheVersion_eq_iff)
qed

text \<open>The theorem on the paths \<^verbatim>\<open>src\<close> and \<^verbatim>\<open>target\<close>, with the identity as digest.\<close>

theorem fingerprint_sensitive_witness:
  "(0::nat) < length [''src'', ''target'']
   \<and> ''lib'' \<noteq> [''src'', ''target''] ! 0
   \<and> getCacheVersion quiet_env [''src'', ''target''] (Some Gzip) False
       \<noteq> getCacheVersion quiet_env ([''src'', ''target''][0 := ''lib'']) (Some Gzip) False
   \<and> Some Gzip \<noteq> Some Zstd
   \<and> getCacheVersion quiet_env [''src'', ''target''] (Some Gzip) False
       \<noteq> getCacheVersion quiet_env [''src'', ''target''] (Some Zstd) False
   \<and> mset [''target'', ''src''] = mset [''src'', ''target'']
   \<and> [''target'', ''src''] \<noteq> [''src'', ''target'']
   \<and> list_all (\<lambda>q. CHR ''|'' \<notin> set q) [''src'', ''target'']
   \<and> getCacheVersion quiet_env [''src'', ''target''] (Some Gzip) False
       \<noteq> getCacheVersion quiet_env [''target'', ''src''] (Some Gzip) False
   \<and> inj (sha256_hex quiet_env)"
proof -
  let ?paths = "[''src'', ''target'']"
  let ?paths' = "[''target'', ''src'']"
  have inj: "inj (sha256_hex quiet_env)"
    by (simp add: quiet_env_def inj_def)
  have 1: "(0::nat) < length ?paths \<and> ''lib'' \<noteq> ?paths ! 0"
    by simp
  have 2: "Some Gzip \<noteq> Some Zstd"
    by simp
  have 3: "mset ?paths' = mset ?paths \<and> ?paths' \<noteq> ?paths
             \<and> (\<forall>q\<in>set ?paths. CHR ''|'' \<notin> set q)"
    by simp
  note A = fingerprint_sensitive [where i = 0 and paths = ?paths and p = "''lib''"
      and E = quiet_env and c = "Some Gzip" and x = False and pathsB = "?paths[0 := ''lib'']"
      and cB = "Some Gzip" and xB = False]
  note B = fingerprint_sensitive [where paths = ?paths and E = quiet_env and c = "Some Gzip"
      and c' = "Some Zstd" and x = False and pathsB = ?paths and cB = "Some Zstd"
      and xB = False]
  note C = fingerprint_sensitive [where paths = ?paths and paths' = ?paths' and E = quiet_env
      and c = "Some Gzip" and x = False and pathsB = ?paths' and cB = "Some Gzip"
      and xB = False]
  have a: "getCacheVersion quiet_env ?paths (Some Gzip) False
             \<noteq> getCacheVersion quiet_env (?paths[0 := ''lib'']) (Some Gzip) False"
    using A [THEN conjunct1, THEN mp, OF 1, THEN not_sym]
      A [THEN conjunct2, THEN conjunct2, THEN conjunct2, THEN mp, OF inj]
    by (simp only: simp_thms)
  have b: "getCacheVersion quiet_env ?paths (Some Gzip) False
             \<noteq> getCacheVersion quiet_env ?paths (Some Zstd) False"
    using B [THEN conjunct2, THEN conjunct1, THEN mp, OF 2]
      B [THEN conjunct2, THEN conjunct2, THEN conjunct2, THEN mp, OF inj]
    by (simp only: simp_thms)
  have c: "getCacheVersion quiet_env ?paths (Some Gzip) False
             \<noteq> getCacheVersion quiet_env ?paths' (Some Gzip) False"
    using C [THEN conjunct2, THEN conjunct2, THEN conjunct1, THEN mp, OF 3, THEN not_sym]
      C [THEN conjunct2, THEN conjunct2, THEN conjunct2, THEN mp, OF inj]
    by (simp only: simp_thms)
  from inj 1 2 3 a b c show ?thesis
    by (simp add: list_all_iff)
qed

text \<open>
  C8 as stated fails for reordering: the paths \<^verbatim>\<open>a|a\<close> and \<^verbatim>\<open>a\<close> give the same
  hashed string in either order, and so the same fingerprint whatever the digest is.
\<close>

theorem fingerprint_sensitive_counterexample:
  "mset [''a'', ''a|a''] = mset [''a|a'', ''a'']
   \<and> [''a'', ''a|a''] \<noteq> [''a|a'', ''a'']
   \<and> array_join ''|'' (components quiet_env [''a'', ''a|a''] (Some Gzip) False)
       = array_join ''|'' (components quiet_env [''a|a'', ''a''] (Some Gzip) False)
   \<and> getCacheVersion quiet_env [''a'', ''a|a''] (Some Gzip) False
       = getCacheVersion quiet_env [''a|a'', ''a''] (Some Gzip) False"
  by (simp add: getCacheVersion_def components_def quiet_env_def versionSalt_def)

text \<open>
  C9. \<^verbatim>\<open>getCacheVersion\<close> leaves the caller's path array as it was: with the array
  referenced by \<open>paths\<close> in the store, the array has the same elements after the call,
  and so has every array that was in the store before it; the components are pushed onto
  the copy. The digest returned is that of the function on values.
\<close>

theorem getCacheVersion_keeps_paths:
  assumes "paths < next_ref s"
  shows "array_get (snd (getCacheVersion_store E s paths c x)) paths = array_get s paths
       \<and> (\<forall>r<next_ref s. cells (snd (getCacheVersion_store E s paths c x)) r = cells s r)
       \<and> fst (getCacheVersion_store E s paths c x) = getCacheVersion E (array_get s paths) c x"
  using assms getCacheVersion_store_cells [of _ s E paths c x]
    getCacheVersion_store_value [of E s paths c x]
  by (simp add: array_get_def)

text \<open>The theorem on a store that holds the caller's array \<^verbatim>\<open>[target]\<close>.\<close>

theorem getCacheVersion_keeps_paths_witness:
  "(0::nat) < next_ref one_array_store
   \<and> array_get one_array_store 0 = [''target'']
   \<and> array_get (snd (getCacheVersion_store quiet_env one_array_store 0 (Some Gzip) False)) 0
       = [''target'']
   \<and> fst (getCacheVersion_store quiet_env one_array_store 0 (Some Gzip) False)
       = getCacheVersion quiet_env [''target''] (Some Gzip) False"
proof -
  have 1: "(0::nat) < next_ref one_array_store"
    by (simp add: one_array_store_def)
  have 2: "array_get one_array_store 0 = [''target'']"
    by (simp add: one_array_store_def array_get_def)
  from getCacheVersion_keeps_paths [OF 1, of quiet_env "Some Gzip" False] 1 2
  show ?thesis by simp
qed


end
